theory Spec2Isabelle
  imports Main
begin

section \<open>JavaScript strings\<close>

text \<open>
  A JavaScript string is a sequence of UTF-16 code units. The regular expressions of the
  source carry no \<open>u\<close> flag, so they too work on code units. String literals of the
  source are written \<open>js ''...''\<close>.
\<close>

type_synonym jschar = nat
type_synonym jsstring = "jschar list"

definition js :: "string \<Rightarrow> jsstring" where
  "js s = map of_char s"

text \<open>The class \<open>\s\<close> of a regular expression, which is also what \<open>trim\<close> strips:
  WhiteSpace and LineTerminator of ECMAScript.\<close>

definition isWhiteSpace :: "jschar \<Rightarrow> bool" where
  "isWhiteSpace c = (c = 9 \<or> c = 10 \<or> c = 11 \<or> c = 12 \<or> c = 13 \<or> c = 32 \<or> c = 160
     \<or> c = 5760 \<or> (8192 \<le> c \<and> c \<le> 8202) \<or> c = 8232 \<or> c = 8233 \<or> c = 8239
     \<or> c = 8287 \<or> c = 12288 \<or> c = 65279)"

definition trim :: "jsstring \<Rightarrow> jsstring" where
  "trim s = rev (dropWhile isWhiteSpace (rev (dropWhile isWhiteSpace s)))"

text \<open>\<open>s.split(c)\<close> for a separator of one code unit: never empty, \<open>"".split(c)\<close> is
  \<open>[""]\<close>.\<close>

fun split_on :: "jschar \<Rightarrow> jsstring \<Rightarrow> jsstring list" where
  "split_on c [] = [[]]"
| "split_on c (x # xs) =
     (if x = c then [] # split_on c xs
      else (case split_on c xs of [] \<Rightarrow> [[x]] | l # ls \<Rightarrow> (x # l) # ls))"

text \<open>\<open>lines.join(sep)\<close>.\<close>

fun join :: "jsstring \<Rightarrow> jsstring list \<Rightarrow> jsstring" where
  "join sep [] = []"
| "join sep [l] = l"
| "join sep (l # ls) = l @ sep @ join sep ls"

section \<open>Numbers and dates\<close>

text \<open>
  \<open>Number(s)\<close> on the numerals a date field can hold: surrounding white space is
  stripped, the empty string is 0, an optionally signed run of decimal digits is its
  value, and anything else is \<open>NaN\<close> (here \<open>None\<close>). Fractions, exponents, radix
  prefixes and \<open>Infinity\<close>, which JavaScript also reads, are not modelled: they are
  \<open>None\<close> here.
\<close>

definition isDigit :: "jschar \<Rightarrow> bool" where
  "isDigit c = (48 \<le> c \<and> c \<le> 57)"

definition decimal :: "jsstring \<Rightarrow> int" where
  "decimal ds = foldl (\<lambda>a c. 10 * a + int (c - 48)) 0 ds"

definition Number :: "jsstring \<Rightarrow> int option" where
  "Number s =
     (let t = trim s in
      if t = [] then Some 0
      else if list_all isDigit t then Some (decimal t)
      else (case t of
              [] \<Rightarrow> None
            | c # ds \<Rightarrow>
                if (c = 43 \<or> c = 45) \<and> ds \<noteq> [] \<and> list_all isDigit ds
                then Some ((if c = 45 then - 1 else 1) * decimal ds)
                else None))"

text \<open>The day arithmetic of ECMAScript's Date: \<open>DayFromYear\<close>, \<open>MakeDay\<close> (months
  beyond 0..11 carry into the year, days beyond the month carry on), \<open>TimeClip\<close>.\<close>

definition DayFromYear :: "int \<Rightarrow> int" where
  "DayFromYear y =
     365 * (y - 1970) + (y - 1969) div 4 - (y - 1901) div 100 + (y - 1601) div 400"

definition isLeapYear :: "int \<Rightarrow> bool" where
  "isLeapYear y = ((y mod 4 = 0 \<and> y mod 100 \<noteq> 0) \<or> y mod 400 = 0)"

definition daysBeforeMonth :: "int \<Rightarrow> int \<Rightarrow> int" where
  "daysBeforeMonth y mn =
     (if mn = 0 then 0 else if mn = 1 then 31
      else (if isLeapYear y then 1 else 0) +
        (if mn = 2 then 59 else if mn = 3 then 90 else if mn = 4 then 120
         else if mn = 5 then 151 else if mn = 6 then 181 else if mn = 7 then 212
         else if mn = 8 then 243 else if mn = 9 then 273 else if mn = 10 then 304
         else 334))"

definition MakeDay :: "int \<Rightarrow> int \<Rightarrow> int \<Rightarrow> int" where
  "MakeDay year month date =
     (let ym = year + month div 12; mn = month mod 12
      in DayFromYear ym + daysBeforeMonth ym mn + date - 1)"

definition msPerDay :: int where
  "msPerDay = 86400000"

definition TimeClip :: "int \<Rightarrow> int option" where
  "TimeClip t = (if \<bar>t\<bar> > 8640000000000000 then None else Some t)"

text \<open>
  \<open>new Date(year, month, day).getTime()\<close>: \<open>None\<close> is the time value \<open>NaN\<close> of an
  invalid date. A year from 0 to 99 means 1900 + year. The local time zone is taken to
  be UTC.
\<close>

definition newDate :: "int option \<Rightarrow> int option \<Rightarrow> int option \<Rightarrow> int option" where
  "newDate year month day =
     (case (year, month, day) of
        (Some y, Some m, Some d) \<Rightarrow>
          (let yr = (if 0 \<le> y \<and> y \<le> 99 then 1900 + y else y)
           in TimeClip (MakeDay yr m d * msPerDay))
      | _ \<Rightarrow> None)"

text \<open>\<open>parseFrenchDate\<close>: the destructuring \<open>[day, month, year]\<close> leaves a missing
  element \<open>undefined\<close>, which \<open>new Date\<close> reads as \<open>NaN\<close>.\<close>

definition parseFrenchDate :: "jsstring \<Rightarrow> int option" where
  "parseFrenchDate dateStr =
     (case map Number (split_on 47 dateStr) of
        day # month # year # _ \<Rightarrow> newDate year (map_option (\<lambda>m. m - 1) month) day
      | _ \<Rightarrow> None)"

section \<open>The archive merger\<close>

text \<open>\<open>Array.prototype.sort\<close> with a comparison function: a stable sort, in which a
  comparison that yields \<open>NaN\<close> counts as 0. For a consistent comparison function every
  conforming engine returns this list; for an inconsistent one ECMAScript leaves the
  order to the engine, and this insertion sort is one conforming choice.\<close>

fun insort_cmp :: "('a \<Rightarrow> 'a \<Rightarrow> int option) \<Rightarrow> 'a \<Rightarrow> 'a list \<Rightarrow> 'a list" where
  "insort_cmp cmp x [] = [x]"
| "insort_cmp cmp x (y # ys) =
     (if (case cmp x y of None \<Rightarrow> 0 | Some v \<Rightarrow> v) \<le> 0 then x # y # ys
      else y # insort_cmp cmp x ys)"

definition array_sort :: "('a \<Rightarrow> 'a \<Rightarrow> int option) \<Rightarrow> 'a list \<Rightarrow> 'a list" where
  "array_sort cmp xs = foldr (insort_cmp cmp) xs []"

text \<open>A \<open>Set\<close> keeps its members in insertion order; \<open>add\<close> of a member changes
  nothing.\<close>

definition set_add :: "'a list \<Rightarrow> 'a \<Rightarrow> 'a list" where
  "set_add S x = (if x \<in> set S then S else S @ [x])"

text \<open>\<open>a.split(";")[0]\<close>; the split is never empty.\<close>

definition firstField :: "jsstring \<Rightarrow> jsstring" where
  "firstField a = (case split_on 59 a of [] \<Rightarrow> [] | f # _ \<Rightarrow> f)"

text \<open>The comparison function of \<open>mergeCSV\<close>: \<open>dateB.getTime() - dateA.getTime()\<close>.\<close>

definition compareRows :: "jsstring \<Rightarrow> jsstring \<Rightarrow> int option" where
  "compareRows a b =
     (case (parseFrenchDate (firstField a), parseFrenchDate (firstField b)) of
        (Some dateA, Some dateB) \<Rightarrow> Some (dateB - dateA)
      | _ \<Rightarrow> None)"

text \<open>\<open>content.split("\n").filter((l) => l.trim())\<close>: the lines that are not blank.\<close>

definition csvLines :: "jsstring \<Rightarrow> jsstring list" where
  "csvLines content = filter (\<lambda>l. trim l \<noteq> []) (split_on 10 content)"

definition mergeCSV :: "jsstring \<Rightarrow> jsstring \<Rightarrow> jsstring" where
  "mergeCSV existing newContent =
     (let existingLines = csvLines existing;
          newLines = csvLines newContent
      in case existingLines of
           [] \<Rightarrow> newContent
         | header # existingRows \<Rightarrow>
             if newLines = [] then existing
             else
               let allData = foldl set_add (foldl set_add [] existingRows) (tl newLines);
                   sortedData = array_sort compareRows allData
               in join [10] (header # sortedData))"

text \<open>The rows of a CSV content: its lines that are not blank, without the first (the
  header).\<close>

definition dataRows :: "jsstring \<Rightarrow> jsstring list" where
  "dataRows content = tl (csvLines content)"

text \<open>
  The calendar date that a day/month/year field denotes, as (year, month, day): three
  runs of decimal digits between slashes that name a day of the Gregorian calendar in a
  year from 100 to 9999. This is the reading the specification gives to a row's first
  field; \<open>parseFrenchDate\<close> above is what the code computes.
\<close>

definition daysInMonth :: "int \<Rightarrow> int \<Rightarrow> int" where
  "daysInMonth y m =
     (if m = 2 then (if isLeapYear y then 29 else 28)
      else if m = 4 \<or> m = 6 \<or> m = 9 \<or> m = 11 then 30 else 31)"

definition validDate :: "int \<Rightarrow> int \<Rightarrow> int \<Rightarrow> bool" where
  "validDate y m d =
     (100 \<le> y \<and> y \<le> 9999 \<and> 1 \<le> m \<and> m \<le> 12 \<and> 1 \<le> d \<and> d \<le> daysInMonth y m)"

definition isNumeral :: "jsstring \<Rightarrow> bool" where
  "isNumeral s = (s \<noteq> [] \<and> list_all isDigit s)"

definition calendarDate :: "jsstring \<Rightarrow> (int \<times> int \<times> int) option" where
  "calendarDate field =
     (case split_on 47 field of
        [d, m, y] \<Rightarrow>
          if isNumeral d \<and> isNumeral m \<and> isNumeral y
             \<and> validDate (decimal y) (decimal m) (decimal d)
          then Some (decimal y, decimal m, decimal d) else None
      | _ \<Rightarrow> None)"



section \<open>Storage: names and paths\<close>

text \<open>
  \<open>sanitizeName\<close>. \<open>String.prototype.normalize("NFD")\<close> is the canonical decomposition
  of Unicode, a table of the JavaScript engine: it is the parameter \<open>nfd\<close> of every
  function that reaches \<open>sanitizeName\<close>. The three \<open>replace\<close> calls are global
  (flag \<open>g\<close>): the first two delete every code unit of a class, the third puts one
  underscore for each maximal run of white space.
\<close>

definition isCombiningMark :: "jschar \<Rightarrow> bool" where
  "isCombiningMark c = (768 \<le> c \<and> c \<le> 879)"

definition isAsciiLetter :: "jschar \<Rightarrow> bool" where
  "isAsciiLetter c = ((97 \<le> c \<and> c \<le> 122) \<or> (65 \<le> c \<and> c \<le> 90))"

text \<open>The code units that \<open>[^a-zA-Z0-9\s-]\<close> does not match.\<close>

definition isKept :: "jschar \<Rightarrow> bool" where
  "isKept c = (isAsciiLetter c \<or> isDigit c \<or> isWhiteSpace c \<or> c = 45)"

function replaceSpaceRuns :: "jsstring \<Rightarrow> jsstring" where
  "replaceSpaceRuns [] = []"
| "replaceSpaceRuns (c # cs) =
     (if isWhiteSpace c then 95 # replaceSpaceRuns (dropWhile isWhiteSpace cs)
      else c # replaceSpaceRuns cs)"
  by pat_completeness auto
termination
  by (relation "measure length") (auto simp: length_dropWhile_le less_Suc_eq_le)

text \<open>\<open>toLowerCase\<close> on the letters A to Z; other code units are left as they are. Where
  \<open>sanitizeName\<close> calls it, the string holds ASCII letters, digits, hyphens and
  underscores only (lemma \<open>replaceSpaceRuns_chars\<close> below), and there this is what
  JavaScript does.\<close>

definition toLowerChar :: "jschar \<Rightarrow> jschar" where
  "toLowerChar c = (if 65 \<le> c \<and> c \<le> 90 then c + 32 else c)"

definition toLowerCase :: "jsstring \<Rightarrow> jsstring" where
  "toLowerCase s = map toLowerChar s"

definition sanitizeName :: "(jsstring \<Rightarrow> jsstring) \<Rightarrow> jsstring \<Rightarrow> jsstring" where
  "sanitizeName nfd name =
     trim (toLowerCase (replaceSpaceRuns
       (filter isKept (filter (\<lambda>c. \<not> isCombiningMark c) (nfd name)))))"

datatype BankId = CAISSE_EPARGNE | UAF_LIFE

fun bankIdString :: "BankId \<Rightarrow> jsstring" where
  "bankIdString CAISSE_EPARGNE = js ''ce''"
| "bankIdString UAF_LIFE = js ''uaf''"

text \<open>\<open>path.join\<close> on plain names (no slash inside, no \<open>.\<close> or \<open>..\<close>): empty
  segments are dropped, the others joined by a slash.\<close>

definition path_join :: "jsstring list \<Rightarrow> jsstring" where
  "path_join segments = join (js ''/'') (filter (\<lambda>s. s \<noteq> []) segments)"

definition DATA_DIR :: jsstring where
  "DATA_DIR = js ''data''"

definition getTransactionsDir :: "BankId \<Rightarrow> jsstring" where
  "getTransactionsDir bankId = path_join [DATA_DIR, js ''transactions'', bankIdString bankId]"

definition getAccountDir :: "(jsstring \<Rightarrow> jsstring) \<Rightarrow> BankId \<Rightarrow> jsstring \<Rightarrow> jsstring" where
  "getAccountDir nfd bankId accountName =
     path_join [getTransactionsDir bankId, sanitizeName nfd accountName]"

text \<open>\<open>startDate.replace(/-/g, "")\<close> between the fixed prefix and suffix.\<close>

definition getTransactionsFilename :: "jsstring \<Rightarrow> jsstring" where
  "getTransactionsFilename startDate =
     js ''history-from-'' @ filter (\<lambda>c. c \<noteq> 45) startDate @ js ''.csv''"

text \<open>The match of \<open>/^history-from-(\d{8})\.csv$/\<close>: the 13 code units of the prefix,
  eight ASCII digits, the suffix and nothing more.\<close>

definition parseTransactionsFilename :: "jsstring \<Rightarrow> jsstring option" where
  "parseTransactionsFilename filename =
     (let compact = take 8 (drop 13 filename)
      in if take 13 filename = js ''history-from-'' \<and> length compact = 8
            \<and> list_all isDigit compact \<and> drop 21 filename = js ''.csv''
         then Some (take 4 compact @ js ''-'' @ take 2 (drop 4 compact) @ js ''-''
                    @ drop 6 compact)
         else None)"

section \<open>Storage: the file system\<close>

text \<open>
  A directory is the list of its entries in the order \<open>readdirSync\<close> returns them; the
  file system maps the path of a directory to its entries, and a path that is no
  directory to \<open>None\<close>. An instant is a number of milliseconds since the epoch, as
  \<open>Date.prototype.getTime\<close> gives it.
\<close>

record fileEntry =
  fname :: jsstring
  mtime :: int
  content :: jsstring

type_synonym filesystem = "jsstring \<Rightarrow> fileEntry list option"

definition ensureDir :: "filesystem \<Rightarrow> jsstring \<Rightarrow> filesystem" where
  "ensureDir fs dirPath = (case fs dirPath of None \<Rightarrow> fs(dirPath \<mapsto> []) | Some _ \<Rightarrow> fs)"

text \<open>\<open>existsSync\<close> and \<open>readFileSync\<close> of the file \<open>name\<close> in the directory \<open>dir\<close>:
  \<open>None\<close> when there is no such file.\<close>

definition readFile :: "filesystem \<Rightarrow> jsstring \<Rightarrow> jsstring \<Rightarrow> jsstring option" where
  "readFile fs dir name =
     (case fs dir of
        None \<Rightarrow> None
      | Some entries \<Rightarrow> map_option content (find (\<lambda>f. fname f = name) entries))"

text \<open>\<open>writeFileSync\<close> at the instant \<open>now\<close>: an existing file gets the new content and
  modification time and keeps its place, a new file is entered last.\<close>

definition writeFile :: "filesystem \<Rightarrow> jsstring \<Rightarrow> jsstring \<Rightarrow> jsstring \<Rightarrow> int \<Rightarrow> filesystem" where
  "writeFile fs dir name data now =
     (let entries = (case fs dir of None \<Rightarrow> [] | Some es \<Rightarrow> es)
      in fs(dir \<mapsto>
           (if \<exists>f \<in> set entries. fname f = name
            then map (\<lambda>f. if fname f = name then f\<lparr>mtime := now, content := data\<rparr> else f) entries
            else entries @ [\<lparr>fname = name, mtime = now, content = data\<rparr>])))"

definition endsWith :: "jsstring \<Rightarrow> jsstring \<Rightarrow> bool" where
  "endsWith s suffix =
     (length suffix \<le> length s \<and> drop (length s - length suffix) s = suffix)"

record TransactionFileInfo =
  info_accountName :: jsstring
  info_bankId :: BankId
  info_startDate :: jsstring
  info_filePath :: jsstring
  info_lastModified :: int

text \<open>The loop of \<open>getLatestTransactionsFile\<close> over the \<open>.csv\<close> entries: the state is
  \<open>(latestFile, latestMtime)\<close>, \<open>None\<close> while both are \<open>null\<close>. An entry replaces the
  state only if it is strictly more recent, so the first of the most recent entries
  wins.\<close>

fun latestLoop :: "(jsstring \<times> int) option \<Rightarrow> fileEntry list \<Rightarrow> (jsstring \<times> int) option" where
  "latestLoop latest [] = latest"
| "latestLoop latest (f # files) =
     (case latest of
        None \<Rightarrow> latestLoop (Some (fname f, mtime f)) files
      | Some (latestFile, latestMtime) \<Rightarrow>
          if mtime f > latestMtime then latestLoop (Some (fname f, mtime f)) files
          else latestLoop latest files)"

definition getLatestTransactionsFile ::
  "(jsstring \<Rightarrow> jsstring) \<Rightarrow> filesystem \<Rightarrow> BankId \<Rightarrow> jsstring \<Rightarrow> TransactionFileInfo option" where
  "getLatestTransactionsFile nfd fs bankId accountName =
     (let accountDir = getAccountDir nfd bankId accountName
      in case fs accountDir of
           None \<Rightarrow> None
         | Some entries \<Rightarrow>
             (let files = filter (\<lambda>f. endsWith (fname f) (js ''.csv'')) entries
              in if files = [] then None
                 else (case latestLoop None files of
                         None \<Rightarrow> None
                       | Some (latestFile, latestMtime) \<Rightarrow>
                           if latestFile = [] then None
                           else (case parseTransactionsFilename latestFile of
                                   None \<Rightarrow> None
                                 | Some parsed \<Rightarrow>
                                     Some \<lparr>info_accountName = accountName,
                                           info_bankId = bankId,
                                           info_startDate = parsed,
                                           info_filePath = path_join [accountDir, latestFile],
                                           info_lastModified = latestMtime\<rparr>))))"

text \<open>The date part of \<open>toISOString()\<close>, as the number of the UTC day: two instants have
  the same date part exactly when they fall on the same UTC day.\<close>

definition isoDate :: "int \<Rightarrow> int" where
  "isoDate t = t div msPerDay"

text \<open>\<open>hasTransactionsForToday\<close>, with the clock reading \<open>now\<close> of \<open>getTodayDate()\<close>.
  It takes the file system and returns a truth value only: it writes nothing.\<close>

fun hasTransactionsForToday ::
  "(jsstring \<Rightarrow> jsstring) \<Rightarrow> filesystem \<Rightarrow> int \<Rightarrow> BankId \<Rightarrow> jsstring list \<Rightarrow> bool" where
  "hasTransactionsForToday nfd fs now bankId [] = True"
| "hasTransactionsForToday nfd fs now bankId (accountName # accountNames) =
     (case getLatestTransactionsFile nfd fs bankId accountName of
        None \<Rightarrow> False
      | Some fileInfo \<Rightarrow>
          if isoDate (info_lastModified fileInfo) \<noteq> isoDate now then False
          else hasTransactionsForToday nfd fs now bankId accountNames)"

text \<open>\<open>saveTransactionsCSV\<close>: the new file system and the path written. \<open>startDate\<close> is
  a date in the form YYYY-MM-DD.\<close>

definition saveTransactionsCSV ::
  "(jsstring \<Rightarrow> jsstring) \<Rightarrow> filesystem \<Rightarrow> int \<Rightarrow> BankId \<Rightarrow> jsstring \<Rightarrow> jsstring \<Rightarrow> jsstring
     \<Rightarrow> filesystem \<times> jsstring" where
  "saveTransactionsCSV nfd fs now bankId accountName startDate csvContent =
     (let accountDir = getAccountDir nfd bankId accountName;
          fs1 = ensureDir fs accountDir;
          existingFile = getLatestTransactionsFile nfd fs1 bankId accountName;
          effectiveStartDate =
            (case existingFile of None \<Rightarrow> startDate | Some info \<Rightarrow> info_startDate info);
          filename = getTransactionsFilename effectiveStartDate;
          filePath = path_join [accountDir, filename]
      in case readFile fs1 accountDir filename of
           Some existingContent \<Rightarrow>
             (writeFile fs1 accountDir filename (mergeCSV existingContent csvContent) now,
              filePath)
         | None \<Rightarrow> (writeFile fs1 accountDir filename csvContent now, filePath))"

text \<open>
  Two names are variants of each other when one becomes the other by changing the case
  of letters, by adding or removing combining accents (the code units U+0300 to U+036F
  that decomposition splits off an accented letter), and by adding or removing
  characters that are neither ASCII letters or digits nor white space nor hyphens.
\<close>

inductive variant :: "jsstring \<Rightarrow> jsstring \<Rightarrow> bool" where
  same: "variant s s"
| letterCase: "toLowerChar c = toLowerChar c' \<Longrightarrow> variant (u @ c # v) (u @ c' # v)"
| accent: "isCombiningMark c \<Longrightarrow> variant (u @ c # v) (u @ v)"
| special: "\<not> isKept c \<Longrightarrow> variant (u @ c # v) (u @ v)"
| sym: "variant s t \<Longrightarrow> variant t s"
| trans: "variant s t \<Longrightarrow> variant t r \<Longrightarrow> variant s r"

text \<open>The alphabet of a sanitized name: lower-case ASCII letters, digits, underscore and
  hyphen.\<close>

definition isNameChar :: "jschar \<Rightarrow> bool" where
  "isNameChar c = ((97 \<le> c \<and> c \<le> 122) \<or> isDigit c \<or> c = 95 \<or> c = 45)"

text \<open>An archive directory as a run leaves it: one archive file, anchored at 2023-03-01
  and last written at the instant 1700000000000 (14 November 2023, UTC).\<close>

definition exampleArchive :: filesystem where
  "exampleArchive =
     [js ''data/transactions/ce/livret_a'' \<mapsto>
        [\<lparr>fname = js ''history-from-20230301.csv'', mtime = 1700000000000,
          content = join [10] [js ''Date;Libelle'', js ''05/03/2023;A'']\<rparr>]]"


section \<open>The credential resolver\<close>

text \<open>
  The values \<open>JSON.parse\<close> returns; a number matters only through being zero or not.
  \<open>JSON.parse\<close> itself belongs to the JavaScript engine: it is the parameter
  \<open>JSON_parse\<close>, with \<open>None\<close> for the \<open>SyntaxError\<close> it raises.
\<close>

datatype json =
  JNull | JBool bool | JNum int | JStr jsstring | JArr "json list"
  | JObj "(jsstring \<times> json) list"

text \<open>\<open>parsed?.key\<close>: \<open>None\<close> is \<open>undefined\<close>.\<close>

fun getField :: "json \<Rightarrow> jsstring \<Rightarrow> json option" where
  "getField (JObj members) key = map_of members key"
| "getField _ key = None"

fun truthy :: "json option \<Rightarrow> bool" where
  "truthy None = False"
| "truthy (Some JNull) = False"
| "truthy (Some (JBool b)) = b"
| "truthy (Some (JNum n)) = (n \<noteq> 0)"
| "truthy (Some (JStr s)) = (s \<noteq> [])"
| "truthy (Some (JArr _)) = True"
| "truthy (Some (JObj _)) = True"

text \<open>\<open>a || b\<close>.\<close>

definition orElse :: "json option \<Rightarrow> json option \<Rightarrow> json option" where
  "orElse a b = (if truthy a then a else b)"

text \<open>
  A match of \<open>/Bearer\s+[A-Za-z0-9._-]+/i\<close> that starts at the head of the string: the
  six letters in either case, all the white space that follows (at least one), all the
  token characters that follow (at least one). Without the flag \<open>u\<close>, ignoring case
  identifies no code unit beyond ASCII with an ASCII one.
\<close>

definition isTokenChar :: "jschar \<Rightarrow> bool" where
  "isTokenChar c = (isAsciiLetter c \<or> isDigit c \<or> c = 46 \<or> c = 95 \<or> c = 45)"

definition matchBearerAt :: "jsstring \<Rightarrow> jsstring option" where
  "matchBearerAt s =
     (let word = take 6 s;
          spaces = takeWhile isWhiteSpace (drop 6 s);
          token = takeWhile isTokenChar (dropWhile isWhiteSpace (drop 6 s))
      in if toLowerCase word = js ''bearer'' \<and> spaces \<noteq> [] \<and> token \<noteq> []
         then Some (word @ spaces @ token) else None)"

text \<open>\<open>value.match(...)\<close>: the leftmost match, \<open>None\<close> for \<open>null\<close>.\<close>

fun matchBearer :: "jsstring \<Rightarrow> jsstring option" where
  "matchBearer [] = None"
| "matchBearer (c # cs) =
     (case matchBearerAt (c # cs) of Some m \<Rightarrow> Some m | None \<Rightarrow> matchBearer cs)"

text \<open>The JSON branch of \<open>extractTokenFromStorage\<close>: the token candidate when it is a
  string of more than ten code units; \<open>None\<close> when the branch does not return.\<close>

definition jsonToken :: "(jsstring \<Rightarrow> json option) \<Rightarrow> jsstring \<Rightarrow> jsstring option" where
  "jsonToken JSON_parse value =
     (if take 1 (trim value) = js ''{'' then
        (case JSON_parse value of
           None \<Rightarrow> None
         | Some parsed \<Rightarrow>
             (case orElse (getField parsed (js ''access_token''))
                     (orElse (getField parsed (js ''token''))
                        (orElse (getField parsed (js ''id_token''))
                           (getField parsed (js ''authorization'')))) of
                Some (JStr tokenCandidate) \<Rightarrow>
                  if length tokenCandidate > 10 then Some tokenCandidate else None
              | _ \<Rightarrow> None))
      else None)"

text \<open>\<open>/token|auth/i.test(key)\<close>: one of the two words occurs in the key, in any
  case.\<close>

fun containsIgnoreCase :: "jsstring \<Rightarrow> jsstring \<Rightarrow> bool" where
  "containsIgnoreCase word [] = (word = [])"
| "containsIgnoreCase word (c # cs) =
     (toLowerCase (take (length word) (c # cs)) = word \<or> containsIgnoreCase word cs)"

definition keyLooksLikeToken :: "jsstring \<Rightarrow> bool" where
  "keyLooksLikeToken key =
     (containsIgnoreCase (js ''token'') key \<or> containsIgnoreCase (js ''auth'') key)"

text \<open>\<open>extractTokenFromStorage\<close>: the token and the key it was found under.\<close>

fun extractTokenFromStorage ::
  "(jsstring \<Rightarrow> json option) \<Rightarrow> (jsstring \<times> jsstring) list \<Rightarrow> (jsstring \<times> jsstring) option" where
  "extractTokenFromStorage JSON_parse [] = None"
| "extractTokenFromStorage JSON_parse ((key, value) # entries) =
     (if value = [] then extractTokenFromStorage JSON_parse entries
      else (case matchBearer value of
              Some bearerMatch \<Rightarrow> Some (bearerMatch, key)
            | None \<Rightarrow>
                (case jsonToken JSON_parse value of
                   Some tokenCandidate \<Rightarrow> Some (tokenCandidate, key)
                 | None \<Rightarrow>
                     if keyLooksLikeToken key \<and> length value > 10 then Some (value, key)
                     else extractTokenFromStorage JSON_parse entries)))"

text \<open>\<open>buildAuthorizationHeader\<close>; \<open>/^Bearer\s+/i\<close> asks for the word and one white
  space after it.\<close>

definition buildAuthorizationHeader :: "jsstring option \<Rightarrow> jsstring" where
  "buildAuthorizationHeader rawToken =
     (case rawToken of
        None \<Rightarrow> []
      | Some t \<Rightarrow>
          if t = [] then []
          else if toLowerCase (take 6 t) = js ''bearer'' \<and> takeWhile isWhiteSpace (drop 6 t) \<noteq> []
          then t
          else js ''Bearer '' @ t)"

record AuthResult =
  auth_header :: jsstring
  auth_source :: jsstring

text \<open>\<open>resolveAuthHeader\<close>, on the entries that the page evaluation returns: those of
  \<open>localStorage\<close>, then those of \<open>sessionStorage\<close>.\<close>

definition resolveAuthHeader ::
  "(jsstring \<Rightarrow> json option) \<Rightarrow> (jsstring \<times> jsstring) list \<Rightarrow> jsstring \<Rightarrow> AuthResult" where
  "resolveAuthHeader JSON_parse storageEntries fallbackAuthHeader =
     (if fallbackAuthHeader \<noteq> [] then
        \<lparr>auth_header = fallbackAuthHeader, auth_source = js ''request''\<rparr>
      else (case extractTokenFromStorage JSON_parse storageEntries of
              None \<Rightarrow> \<lparr>auth_header = [], auth_source = js ''none''\<rparr>
            | Some (token, sourceKey) \<Rightarrow>
                \<lparr>auth_header = buildAuthorizationHeader (Some token),
                 auth_source = js ''storage:'' @ sourceKey\<rparr>))"

text \<open>An entry on which one of the three attempts of \<open>extractTokenFromStorage\<close>
  succeeds.\<close>

definition entryMatches :: "(jsstring \<Rightarrow> json option) \<Rightarrow> jsstring \<times> jsstring \<Rightarrow> bool" where
  "entryMatches JSON_parse entry =
     (snd entry \<noteq> [] \<and>
      (matchBearer (snd entry) \<noteq> None \<or> jsonToken JSON_parse (snd entry) \<noteq> None
       \<or> (keyLooksLikeToken (fst entry) \<and> length (snd entry) > 10)))"


section \<open>The download run\<close>

text \<open>
  The remote service answers in untyped JSON. The embedding starts from the values that
  the field extractors of the source read off an element of \<open>operationIdResponseItem\<close>:
  the contract identifier (what \<open>extractPfmContractId\<close> returns on an element of the
  last-download listing, what \<open>extractHistoryRequestPfmContractId\<close> returns on an
  element of the history-request listing; \<open>None\<close> is \<open>undefined\<close>), the three dates of
  \<open>item.identity\<close> and \<open>item.identification?.historyRequestId?.id\<close>.
\<close>

record remoteItem =
  item_pfmContractId :: "jsstring option"
  item_downloadDate :: "jsstring option"
  item_startDate :: "jsstring option"
  item_endDate :: "jsstring option"
  item_historyRequestId :: "jsstring option"

record AccountInfo =
  ai_pfmContractId :: jsstring
  ai_accountName :: jsstring

record AccountDownloadInfo =
  adi_pfmContractId :: "jsstring option"
  adi_accountName :: "jsstring option"
  adi_downloadDate :: "jsstring option"
  adi_startDate :: "jsstring option"
  adi_endDate :: "jsstring option"
  adi_historyRequestId :: "jsstring option"

text \<open>A string that is there and truthy, that is, not empty.\<close>

definition truthyId :: "jsstring option \<Rightarrow> jsstring option" where
  "truthyId s = (case s of None \<Rightarrow> None | Some t \<Rightarrow> if t = [] then None else Some t)"

text \<open>\<open>pfmToName.get\<close>: in \<open>new Map(pairs)\<close> the last pair of a key wins.\<close>

definition pfmToName :: "AccountInfo list \<Rightarrow> jsstring \<Rightarrow> jsstring option" where
  "pfmToName accountsFromApi =
     map_of (rev (map (\<lambda>a. (ai_pfmContractId a, ai_accountName a)) accountsFromApi))"

text \<open>The object literal that the source builds from an item, three times.\<close>

definition toDownloadInfo :: "(jsstring \<Rightarrow> jsstring option) \<Rightarrow> remoteItem \<Rightarrow> AccountDownloadInfo" where
  "toDownloadInfo names item =
     \<lparr>adi_pfmContractId = item_pfmContractId item,
      adi_accountName =
        (case truthyId (item_pfmContractId item) of None \<Rightarrow> None | Some pfmId \<Rightarrow> names pfmId),
      adi_downloadDate = item_downloadDate item,
      adi_startDate = item_startDate item,
      adi_endDate = item_endDate item,
      adi_historyRequestId = item_historyRequestId item\<rparr>"

text \<open>\<open>accountsInfo.map((a) => a.pfmContractId).filter(Boolean)\<close>, and the \<open>Set\<close> of
  it.\<close>

definition truthyIds :: "AccountDownloadInfo list \<Rightarrow> jsstring list" where
  "truthyIds accountsInfo = List.map_filter (\<lambda>a. truthyId (adi_pfmContractId a)) accountsInfo"

definition targetPfmContractIds :: "AccountDownloadInfo list \<Rightarrow> jsstring list" where
  "targetPfmContractIds accountsInfo = foldl set_add [] (truthyIds accountsInfo)"

text \<open>The loop that fills \<open>historyByAccount\<close> (and \<open>updatedHistoryByAccount\<close>): an item
  is retained for its account if the account is a target and has no item yet.\<close>

definition retain ::
  "jsstring list \<Rightarrow> (jsstring \<rightharpoonup> remoteItem) \<Rightarrow> remoteItem \<Rightarrow> (jsstring \<rightharpoonup> remoteItem)" where
  "retain targets byAccount item =
     (case truthyId (item_pfmContractId item) of
        None \<Rightarrow> byAccount
      | Some pfmId \<Rightarrow>
          if pfmId \<in> set targets \<and> byAccount pfmId = None then byAccount(pfmId \<mapsto> item)
          else byAccount)"

definition historyByAccount :: "jsstring list \<Rightarrow> remoteItem list \<Rightarrow> (jsstring \<rightharpoonup> remoteItem)" where
  "historyByAccount targets items = foldl (retain targets) Map.empty items"

definition allHaveCorrectDateRange ::
  "jsstring list \<Rightarrow> (jsstring \<rightharpoonup> remoteItem) \<Rightarrow> jsstring \<Rightarrow> jsstring \<Rightarrow> bool" where
  "allHaveCorrectDateRange targets byAccount startDate today =
     list_all (\<lambda>pfmId. case byAccount pfmId of
                  None \<Rightarrow> False
                | Some historyItem \<Rightarrow>
                    item_startDate historyItem = Some startDate
                    \<and> item_endDate historyItem = Some today) targets"

datatype runError = TypeError | AllRequestsFailed | RequestError

text \<open>The reuse branch: \<open>item.identity\<close> on a missing entry would raise a
  \<open>TypeError\<close>.\<close>

fun reuseInfos ::
  "(jsstring \<Rightarrow> jsstring option) \<Rightarrow> (jsstring \<rightharpoonup> remoteItem) \<Rightarrow> jsstring list
     \<Rightarrow> runError + AccountDownloadInfo list" where
  "reuseInfos names byAccount [] = Inr []"
| "reuseInfos names byAccount (pfmId # pfmIds) =
     (case byAccount pfmId of
        None \<Rightarrow> Inl TypeError
      | Some item \<Rightarrow>
          (case reuseInfos names byAccount pfmIds of
             Inl e \<Rightarrow> Inl e
           | Inr infos \<Rightarrow> Inr (toDownloadInfo names item # infos)))"

text \<open>
  What the remote service does in a run. A create request is answered with a success
  status, with another status, or the call raises; the answer may depend on the number of
  the call and on the account. The second listing of the history requests is \<open>None\<close>
  when the call or the decoding of its body raises. A prepare call raises, or its body is
  no JSON, or the JSON has no download URL, or it has one; a fetch raises, or has a
  failure status, or delivers the content.
\<close>

datatype createOutcome = CreateOk | CreateNotOk | CreateThrows

datatype prepareOutcome = PrepareThrows | PrepareNoData | PrepareNoUrl | PrepareUrl jsstring

datatype fetchOutcome = FetchThrows | FetchNotOk | FetchOk jsstring

record remote =
  lastDownloadItems :: "remoteItem list"
  historyRequestItems :: "remoteItem list"
  createResponse :: "nat \<Rightarrow> jsstring \<Rightarrow> createOutcome"
  updatedItems :: "remoteItem list option"
  prepareResponse :: "jsstring \<Rightarrow> prepareOutcome"
  fileResponse :: "jsstring \<Rightarrow> fetchOutcome"

text \<open>The calls to the remote service, in the order the run makes them; a create
  request carries the account, the window and the authorization header.\<close>

datatype call =
  GetLastExportMetadata
  | ListRequests
  | CreateRequest jsstring jsstring jsstring jsstring
  | PrepareDownload jsstring
  | FetchExport jsstring

text \<open>The first loop of \<open>createDownloadRequests\<close>: \<open>successCount\<close> and the calls made;
  \<open>k\<close> numbers the calls.\<close>

fun createLoop ::
  "remote \<Rightarrow> jsstring \<Rightarrow> jsstring \<Rightarrow> jsstring \<Rightarrow> nat \<Rightarrow> AccountDownloadInfo list
     \<Rightarrow> nat \<times> call list" where
  "createLoop remote startDate endDate authHeader k [] = (0, [])"
| "createLoop remote startDate endDate authHeader k (accountInfo # accountsInfo) =
     (case truthyId (adi_pfmContractId accountInfo) of
        None \<Rightarrow> createLoop remote startDate endDate authHeader k accountsInfo
      | Some pfmContractId \<Rightarrow>
          (case createLoop remote startDate endDate authHeader (Suc k) accountsInfo of
             (successCount, calls) \<Rightarrow>
               ((if createResponse remote k pfmContractId = CreateOk then 1 else 0) + successCount,
                CreateRequest pfmContractId startDate endDate authHeader # calls)))"

definition createDownloadRequests ::
  "remote \<Rightarrow> AccountDownloadInfo list \<Rightarrow> jsstring \<Rightarrow> jsstring \<Rightarrow> jsstring
     \<Rightarrow> (jsstring \<Rightarrow> jsstring option) \<Rightarrow> jsstring list
     \<Rightarrow> (runError + AccountDownloadInfo list) \<times> call list" where
  "createDownloadRequests remote accountsInfo startDate endDate authHeader names targets =
     (case createLoop remote startDate endDate authHeader 0 accountsInfo of
        (successCount, calls) \<Rightarrow>
          if successCount = 0 then (Inl AllRequestsFailed, calls)
          else (case updatedItems remote of
                  None \<Rightarrow> (Inl RequestError, calls @ [ListRequests])
                | Some items \<Rightarrow>
                    (let updatedHistoryByAccount = historyByAccount targets items
                     in (Inr (List.map_filter
                                (\<lambda>pfmId. map_option (toDownloadInfo names)
                                            (updatedHistoryByAccount pfmId)) targets),
                         calls @ [ListRequests]))))"

text \<open>\<open>downloadAccountCSV\<close>, called with the request and contract identifiers that the
  caller has found truthy: success, the file system and the calls made. Whatever raises
  inside is caught and makes the result \<open>false\<close>.\<close>

definition downloadAccountCSV ::
  "(jsstring \<Rightarrow> jsstring) \<Rightarrow> remote \<Rightarrow> filesystem \<Rightarrow> int \<Rightarrow> AccountDownloadInfo \<Rightarrow> jsstring
     \<Rightarrow> jsstring \<Rightarrow> jsstring \<Rightarrow> bool \<times> filesystem \<times> call list" where
  "downloadAccountCSV nfd remote fs now accountInfo historyRequestId pfmContractId startDate =
     (case prepareResponse remote historyRequestId of
        PrepareUrl downloadUrl \<Rightarrow>
          if downloadUrl = [] then (False, fs, [PrepareDownload historyRequestId])
          else (case fileResponse remote downloadUrl of
                  FetchOk csvContent \<Rightarrow>
                    (let accountName =
                           (case truthyId (adi_accountName accountInfo) of
                              Some n \<Rightarrow> n
                            | None \<Rightarrow> js ''Account_'' @ pfmContractId)
                     in (True,
                         fst (saveTransactionsCSV nfd fs now CAISSE_EPARGNE accountName
                                startDate csvContent),
                         [PrepareDownload historyRequestId, FetchExport downloadUrl]))
                | _ \<Rightarrow> (False, fs, [PrepareDownload historyRequestId, FetchExport downloadUrl]))
      | _ \<Rightarrow> (False, fs, [PrepareDownload historyRequestId]))"

text \<open>The download loop: the file system, \<open>downloadedCount\<close> and the calls made.\<close>

fun downloadLoop ::
  "(jsstring \<Rightarrow> jsstring) \<Rightarrow> remote \<Rightarrow> int \<Rightarrow> jsstring \<Rightarrow> AccountDownloadInfo list \<Rightarrow> filesystem
     \<Rightarrow> filesystem \<times> nat \<times> call list" where
  "downloadLoop nfd remote now startDate [] fs = (fs, 0, [])"
| "downloadLoop nfd remote now startDate (accountInfo # accountsWithIds) fs =
     (case (truthyId (adi_historyRequestId accountInfo), truthyId (adi_pfmContractId accountInfo)) of
        (Some historyRequestId, Some pfmContractId) \<Rightarrow>
          (case downloadAccountCSV nfd remote fs now accountInfo historyRequestId pfmContractId
                  startDate of
             (success, fs1, calls) \<Rightarrow>
               (case downloadLoop nfd remote now startDate accountsWithIds fs1 of
                  (fs2, downloadedCount, calls') \<Rightarrow>
                    (fs2, (if success then 1 else 0) + downloadedCount, calls @ calls')))
      | _ \<Rightarrow> downloadLoop nfd remote now startDate accountsWithIds fs)"

text \<open>
  What the logged-in page gives the run: the accounts of the API data, the authorization
  header seen on a request (empty if none was seen) and the entries of the browser
  storage. The clock gives the instant of the run, today's date and the start of the
  window, both as YYYY-MM-DD.
\<close>

record session =
  ses_accountsFromApi :: "AccountInfo list"
  ses_requestAuthHeader :: jsstring
  ses_storageEntries :: "(jsstring \<times> jsstring) list"

record clock =
  clock_now :: int
  clock_today :: jsstring
  clock_startDate :: jsstring

record runResult =
  run_outcome :: "runError + bool"
  run_files :: filesystem
  run_calls :: "call list"
  run_downloaded :: nat

text \<open>The target accounts of a run, the history request retained for each, and the
  authorization header of its calls.\<close>

definition runAccountsInfo :: "session \<Rightarrow> remote \<Rightarrow> AccountDownloadInfo list" where
  "runAccountsInfo session remote =
     map (toDownloadInfo (pfmToName (ses_accountsFromApi session))) (lastDownloadItems remote)"

definition runTargets :: "session \<Rightarrow> remote \<Rightarrow> jsstring list" where
  "runTargets session remote = targetPfmContractIds (runAccountsInfo session remote)"

definition runRetained :: "session \<Rightarrow> remote \<Rightarrow> (jsstring \<rightharpoonup> remoteItem)" where
  "runRetained session remote =
     historyByAccount (runTargets session remote) (historyRequestItems remote)"

definition runAuthHeader :: "(jsstring \<Rightarrow> json option) \<Rightarrow> session \<Rightarrow> jsstring" where
  "runAuthHeader JSON_parse session =
     auth_header (resolveAuthHeader JSON_parse (ses_storageEntries session)
                    (ses_requestAuthHeader session))"

text \<open>\<open>downloadTransactions\<close>, from the freshness guard on. The two listings that the
  page loads on the way are taken as delivered.\<close>

definition downloadTransactions ::
  "(jsstring \<Rightarrow> jsstring) \<Rightarrow> (jsstring \<Rightarrow> json option) \<Rightarrow> session \<Rightarrow> remote \<Rightarrow> clock
     \<Rightarrow> filesystem \<Rightarrow> runResult" where
  "downloadTransactions nfd JSON_parse session remote clock fs =
     (let today = clock_today clock;
          startDate = clock_startDate clock;
          names = pfmToName (ses_accountsFromApi session);
          accountNames = map ai_accountName (ses_accountsFromApi session)
      in if hasTransactionsForToday nfd fs (clock_now clock) CAISSE_EPARGNE accountNames
         then \<lparr>run_outcome = Inr False, run_files = fs, run_calls = [], run_downloaded = 0\<rparr>
         else
           (let authHeader = runAuthHeader JSON_parse session;
                accountsInfo = runAccountsInfo session remote;
                targets = runTargets session remote;
                byAccount = runRetained session remote;
                listings = [GetLastExportMetadata, ListRequests]
            in case (if allHaveCorrectDateRange targets byAccount startDate today
                     then (reuseInfos names byAccount targets, [])
                     else createDownloadRequests remote accountsInfo startDate today
                            authHeader names targets) of
                 (Inl e, calls) \<Rightarrow>
                   \<lparr>run_outcome = Inl e, run_files = fs, run_calls = listings @ calls,
                    run_downloaded = 0\<rparr>
               | (Inr accountsWithIds, calls) \<Rightarrow>
                   (case downloadLoop nfd remote (clock_now clock) startDate accountsWithIds fs of
                      (fs', downloadedCount, calls') \<Rightarrow>
                        \<lparr>run_outcome = Inr True, run_files = fs',
                         run_calls = listings @ calls @ calls',
                         run_downloaded = downloadedCount\<rparr>)))"

fun isCreate :: "call \<Rightarrow> bool" where
  "isCreate (CreateRequest _ _ _ _) = True"
| "isCreate _ = False"

fun isPrepare :: "call \<Rightarrow> bool" where
  "isPrepare (PrepareDownload _) = True"
| "isPrepare _ = False"

fun isDownload :: "call \<Rightarrow> bool" where
  "isDownload (PrepareDownload _) = True"
| "isDownload (FetchExport _) = True"
| "isDownload _ = False"

text \<open>The request identifiers that the download loop works on: those of the entries
  whose contract and request identifiers are both truthy.\<close>

definition requestIds :: "AccountDownloadInfo list \<Rightarrow> jsstring list" where
  "requestIds infos =
     List.map_filter (\<lambda>a. case truthyId (adi_pfmContractId a) of
                            None \<Rightarrow> None
                          | Some p \<Rightarrow> truthyId (adi_historyRequestId a)) infos"

text \<open>The request identifier of the history request retained for an account.\<close>

definition retainedRequestId :: "(jsstring \<rightharpoonup> remoteItem) \<Rightarrow> jsstring \<Rightarrow> jsstring option" where
  "retainedRequestId byAccount pfmId =
     (case byAccount pfmId of
        None \<Rightarrow> None
      | Some item \<Rightarrow> truthyId (item_historyRequestId item))"

text \<open>The reuse test as the specification words it: the account has a retained history
  request whose window is the window of the run.\<close>

definition hasCurrentRequest ::
  "(jsstring \<rightharpoonup> remoteItem) \<Rightarrow> jsstring \<Rightarrow> jsstring \<Rightarrow> jsstring \<Rightarrow> bool" where
  "hasCurrentRequest byAccount windowStart windowEnd pfmId =
     (\<exists>item. byAccount pfmId = Some item \<and> item_startDate item = Some windowStart
             \<and> item_endDate item = Some windowEnd)"

text \<open>
  A run to try the engine on: three accounts, no archive yet, on 15 November 2023 with a
  window that starts 792 days earlier. The remote service is given by its listing of
  history requests and by its answers to create requests; after the creates it lists a
  request of the current window for every account, it prepares a download for the
  request R1 only, and every fetch delivers the same content.
\<close>

definition exampleSession :: session where
  "exampleSession =
     \<lparr>ses_accountsFromApi =
        [\<lparr>ai_pfmContractId = js ''111'', ai_accountName = js ''Livret A''\<rparr>,
         \<lparr>ai_pfmContractId = js ''222'', ai_accountName = js ''Compte Courant''\<rparr>,
         \<lparr>ai_pfmContractId = js ''333'', ai_accountName = js ''PEL''\<rparr>],
      ses_requestAuthHeader = js ''Bearer tok'',
      ses_storageEntries = []\<rparr>"

definition exampleClock :: clock where
  "exampleClock =
     \<lparr>clock_now = 1700090000000, clock_today = js ''2023-11-15'',
      clock_startDate = js ''2021-09-14''\<rparr>"

definition exampleItem :: "jsstring \<Rightarrow> jsstring \<Rightarrow> jsstring \<Rightarrow> jsstring \<Rightarrow> remoteItem" where
  "exampleItem pfmId windowStart windowEnd requestId =
     \<lparr>item_pfmContractId = Some pfmId, item_downloadDate = Some windowEnd,
      item_startDate = Some windowStart, item_endDate = Some windowEnd,
      item_historyRequestId = Some requestId\<rparr>"

definition exampleRemote :: "remoteItem list \<Rightarrow> (nat \<Rightarrow> jsstring \<Rightarrow> createOutcome) \<Rightarrow> remote" where
  "exampleRemote listed answers =
     \<lparr>lastDownloadItems =
        [exampleItem (js ''111'') (js ''2021-09-01'') (js ''2023-11-02'') (js ''Q1''),
         exampleItem (js ''222'') (js ''2021-09-01'') (js ''2023-11-02'') (js ''Q2''),
         exampleItem (js ''333'') (js ''2021-09-01'') (js ''2023-11-02'') (js ''Q3'')],
      historyRequestItems = listed,
      createResponse = answers,
      updatedItems =
        Some [exampleItem (js ''111'') (js ''2021-09-14'') (js ''2023-11-15'') (js ''R1''),
              exampleItem (js ''222'') (js ''2021-09-14'') (js ''2023-11-15'') (js ''R2''),
              exampleItem (js ''333'') (js ''2021-09-14'') (js ''2023-11-15'') (js ''R3'')],
      prepareResponse = (\<lambda>r. if r = js ''R1'' then PrepareUrl (js ''u1'') else PrepareNoData),
      fileResponse = (\<lambda>u. FetchOk (join [10] [js ''Date;Libelle'', js ''02/11/2023;B'']))\<rparr>"


section \<open>Properties of the archive merger\<close>

subsection \<open>Splitting, joining, sets and sorting\<close>

lemma split_on_ne: "split_on c s \<noteq> []"
  by (induction s) (auto split: list.splits)

lemma split_on_no_sep: "l \<in> set (split_on c s) \<Longrightarrow> c \<notin> set l"
  by (induction s arbitrary: l) (auto split: list.splits if_splits)

lemma split_on_single: "c \<notin> set l \<Longrightarrow> split_on c l = [l]"
  by (induction l) auto

lemma split_on_append: "c \<notin> set l \<Longrightarrow> split_on c (l @ c # r) = l # split_on c r"
  by (induction l) auto

lemma split_join:
  "ls \<noteq> [] \<Longrightarrow> (\<And>l. l \<in> set ls \<Longrightarrow> c \<notin> set l) \<Longrightarrow> split_on c (join [c] ls) = ls"
proof (induction ls)
  case Nil
  then show ?case by simp
next
  case (Cons l ls)
  show ?case
  proof (cases ls)
    case Nil
    with Cons.prems show ?thesis by (simp add: split_on_single)
  next
    case (Cons m ms)
    with Cons.IH Cons.prems show ?thesis by (simp add: split_on_append)
  qed
qed

lemma set_foldl_set_add: "set (foldl set_add S xs) = set S \<union> set xs"
  by (induction xs arbitrary: S) (auto simp: set_add_def)

lemma distinct_foldl_set_add: "distinct S \<Longrightarrow> distinct (foldl set_add S xs)"
  by (induction xs arbitrary: S) (auto simp: set_add_def)

lemma set_insort_cmp: "set (insort_cmp cmp x xs) = insert x (set xs)"
  by (induction xs) auto

lemma set_array_sort: "set (array_sort cmp xs) = set xs"
  by (induction xs) (auto simp: array_sort_def set_insort_cmp)

lemma distinct_insort_cmp: "distinct (insort_cmp cmp x xs) = (x \<notin> set xs \<and> distinct xs)"
  by (induction xs) (auto simp: set_insort_cmp)

lemma distinct_array_sort: "distinct (array_sort cmp xs) = distinct xs"
  by (induction xs) (auto simp: array_sort_def distinct_insort_cmp set_array_sort[unfolded array_sort_def])

lemma csvLines_props: "l \<in> set (csvLines s) \<Longrightarrow> trim l \<noteq> [] \<and> 10 \<notin> set l"
  by (auto simp: csvLines_def dest: split_on_no_sep)

lemma csvLines_join:
  "ls \<noteq> [] \<Longrightarrow> (\<And>l. l \<in> set ls \<Longrightarrow> trim l \<noteq> [] \<and> 10 \<notin> set l) \<Longrightarrow> csvLines (join [10] ls) = ls"
  by (simp add: csvLines_def split_join)

lemma lines_mergeCSV:
  assumes "csvLines e = h # rs" "csvLines n \<noteq> []"
  shows "mergeCSV e n = join [10] (h # array_sort compareRows (foldl set_add (foldl set_add [] rs) (tl (csvLines n))))"
    and "split_on 10 (mergeCSV e n) = h # array_sort compareRows (foldl set_add (foldl set_add [] rs) (tl (csvLines n)))"
    and "csvLines (mergeCSV e n) = h # array_sort compareRows (foldl set_add (foldl set_add [] rs) (tl (csvLines n)))"
proof -
  let ?out = "h # array_sort compareRows (foldl set_add (foldl set_add [] rs) (tl (csvLines n)))"
  show m: "mergeCSV e n = join [10] ?out"
    using assms by (simp add: mergeCSV_def Let_def)
  have p: "trim l \<noteq> [] \<and> 10 \<notin> set l" if "l \<in> set ?out" for l
  proof -
    from that have "l \<in> set (csvLines e) \<or> l \<in> set (csvLines n)"
      using assms by (auto simp: set_array_sort set_foldl_set_add dest: list.set_sel(2))
    then show ?thesis using csvLines_props by blast
  qed
  show "split_on 10 (mergeCSV e n) = ?out"
    unfolding m using p by (intro split_join) auto
  show "csvLines (mergeCSV e n) = ?out"
    unfolding m using p by (intro csvLines_join) auto
qed

lemma dataRows_mergeCSV:
  assumes "csvLines e \<noteq> []" "csvLines n \<noteq> []"
  shows "dataRows (mergeCSV e n) = array_sort compareRows (foldl set_add (foldl set_add [] (dataRows e)) (dataRows n))"
  using assms lines_mergeCSV(3)[of e "hd (csvLines e)" "tl (csvLines e)" n]
  by (simp add: dataRows_def)

subsection \<open>Day numbers are monotone in the calendar date\<close>
















subsection \<open>Parsing and sorting\<close>








subsection \<open>The merge\<close>

text \<open>
  Claim C6. Every row of the existing archive (a line that is not blank, the header
  apart) is a row of the merged content, whatever the existing and the new content are:
  the merge returns the existing content as it is, or the new content when the existing
  one has no line, or the header followed by the union of both row sets.
\<close>

theorem mergeCSV_keeps_existing_rows:
  "set (dataRows existing) \<subseteq> set (dataRows (mergeCSV existing newContent))"
proof (cases "csvLines existing = []")
  case True
  then show ?thesis by (simp add: dataRows_def)
next
  case e: False
  show ?thesis
  proof (cases "csvLines newContent = []")
    case True
    with e have "mergeCSV existing newContent = existing"
      by (simp add: mergeCSV_def split: list.splits)
    then show ?thesis by simp
  next
    case n: False
    show ?thesis
      by (simp add: dataRows_mergeCSV[OF e n] set_array_sort set_foldl_set_add)
  qed
qed

text \<open>
  Claim C5. Merging a content with itself yields a content with the same set of rows,
  each row once. This holds for every content, with or without a line that is not blank.
\<close>

theorem mergeCSV_same_content_rows:
  "set (dataRows (mergeCSV X X)) = set (dataRows X) \<and> distinct (dataRows (mergeCSV X X))"
proof (cases "csvLines X = []")
  case True
  then have "mergeCSV X X = X" by (simp add: mergeCSV_def)
  with True show ?thesis by (simp add: dataRows_def)
next
  case False
  show ?thesis
    by (simp add: dataRows_mergeCSV[OF False False] set_array_sort set_foldl_set_add
        distinct_array_sort distinct_foldl_set_add)
qed



lemmas merge_eval = csvLines_def js_def trim_def isWhiteSpace_def dataRows_def
  mergeCSV_def set_add_def array_sort_def compareRows_def firstField_def parseFrenchDate_def
  Number_def isDigit_def decimal_def newDate_def TimeClip_def MakeDay_def DayFromYear_def
  daysBeforeMonth_def isLeapYear_def msPerDay_def Let_def calendarDate_def isNumeral_def
  validDate_def daysInMonth_def


section \<open>Properties of the storage\<close>

subsection \<open>Sanitized names\<close>

lemma replaceSpaceRuns_chars:
  "c \<in> set (replaceSpaceRuns s) \<Longrightarrow> c = 95 \<or> (c \<in> set s \<and> \<not> isWhiteSpace c)"
proof (induction s arbitrary: c rule: replaceSpaceRuns.induct)
  case 1
  then show ?case by simp
next
  case (2 x xs)
  then show ?case by (auto split: if_splits dest: set_dropWhileD)
qed

lemma set_trim: "set (trim s) \<subseteq> set s"
  by (auto simp: trim_def dest!: set_dropWhileD)

lemma isNameChar_toLowerChar:
  "c = 95 \<or> (isKept c \<and> \<not> isWhiteSpace c) \<Longrightarrow> isNameChar (toLowerChar c)"
  by (auto simp: isNameChar_def toLowerChar_def isKept_def isAsciiLetter_def isDigit_def)

lemma sanitizeName_chars: "list_all isNameChar (sanitizeName nfd name)"
proof -
  have "isNameChar c" if "c \<in> set (sanitizeName nfd name)" for c
  proof -
    let ?r = "replaceSpaceRuns (filter isKept (filter (\<lambda>c. \<not> isCombiningMark c) (nfd name)))"
    from that have "c \<in> set (map toLowerChar ?r)"
      using set_trim[of "map toLowerChar ?r"] by (auto simp: sanitizeName_def toLowerCase_def)
    then obtain d where d: "c = toLowerChar d" "d \<in> set ?r"
      by auto
    from replaceSpaceRuns_chars[OF d(2)] have "d = 95 \<or> (isKept d \<and> \<not> isWhiteSpace d)" by auto
    then show ?thesis unfolding d(1) by (rule isNameChar_toLowerChar)
  qed
  then show ?thesis by (simp add: list_all_iff)
qed

lemma isWhiteSpace_toLowerChar: "isWhiteSpace (toLowerChar c) = isWhiteSpace c"
  by (auto simp: toLowerChar_def isWhiteSpace_def)

lemma toLowerCase_replaceSpaceRuns:
  "toLowerCase (replaceSpaceRuns s) = replaceSpaceRuns (toLowerCase s)"
proof (induction s rule: replaceSpaceRuns.induct)
  case 1
  then show ?case by (simp add: toLowerCase_def)
next
  case (2 c cs)
  have dw: "dropWhile isWhiteSpace (map toLowerChar cs) = map toLowerChar (dropWhile isWhiteSpace cs)"
    by (simp add: dropWhile_map comp_def isWhiteSpace_toLowerChar)
  have u: "toLowerChar 95 = 95" by (simp add: toLowerChar_def)
  show ?case
  proof (cases "isWhiteSpace c")
    case True
    with 2 show ?thesis by (simp add: toLowerCase_def isWhiteSpace_toLowerChar dw u)
  next
    case False
    with 2 show ?thesis by (simp add: toLowerCase_def isWhiteSpace_toLowerChar)
  qed
qed

lemma toLowerChar_eq_classes:
  assumes "toLowerChar c = toLowerChar c'"
  shows "isKept c = isKept c'" "isCombiningMark c = isCombiningMark c'"
proof -
  from assms have "c = c' \<or> (65 \<le> c \<and> c \<le> 90 \<and> c' = c + 32) \<or> (65 \<le> c' \<and> c' \<le> 90 \<and> c = c' + 32)"
    by (auto simp: toLowerChar_def split: if_splits)
  then consider "c = c'" | "65 \<le> c" "c \<le> 90" "c' = c + 32" | "65 \<le> c'" "c' \<le> 90" "c = c' + 32"
    by blast
  then have "isKept c = isKept c' \<and> isCombiningMark c = isCombiningMark c'"
  proof cases
    case 1
    then show ?thesis by simp
  next
    case 2
    then have "isAsciiLetter c" "isAsciiLetter c'" "\<not> isCombiningMark c" "\<not> isCombiningMark c'"
      by (simp_all add: isAsciiLetter_def isCombiningMark_def)
    then show ?thesis by (simp add: isKept_def)
  next
    case 3
    then have "isAsciiLetter c" "isAsciiLetter c'" "\<not> isCombiningMark c" "\<not> isCombiningMark c'"
      by (simp_all add: isAsciiLetter_def isCombiningMark_def)
    then show ?thesis by (simp add: isKept_def)
  qed
  then show "isKept c = isKept c'" "isCombiningMark c = isCombiningMark c'" by simp_all
qed

lemma variant_core:
  "variant s t \<Longrightarrow>
   toLowerCase (filter isKept (filter (\<lambda>c. \<not> isCombiningMark c) s))
     = toLowerCase (filter isKept (filter (\<lambda>c. \<not> isCombiningMark c) t))"
proof (induction rule: variant.induct)
  case (letterCase c c' u v)
  from toLowerChar_eq_classes[OF this] this show ?case by (simp add: toLowerCase_def)
qed (simp_all add: toLowerCase_def)

lemma sanitizeName_variant:
  "variant (nfd a) (nfd b) \<Longrightarrow> sanitizeName nfd a = sanitizeName nfd b"
  using variant_core[of "nfd a" "nfd b"]
  by (simp add: sanitizeName_def toLowerCase_replaceSpaceRuns)

lemma saveTransactionsCSV_dir:
  assumes "getAccountDir nfd bankId a = getAccountDir nfd bankId b"
  shows "saveTransactionsCSV nfd fs now bankId a startDate csv
       = saveTransactionsCSV nfd fs now bankId b startDate csv"
proof -
  have "map_option info_startDate (getLatestTransactionsFile nfd fs' bankId a)
      = map_option info_startDate (getLatestTransactionsFile nfd fs' bankId b)" for fs'
    using assms by (simp add: getLatestTransactionsFile_def Let_def split: option.splits prod.splits)
  then have e: "(case getLatestTransactionsFile nfd fs' bankId a of None \<Rightarrow> startDate | Some info \<Rightarrow> info_startDate info)
      = (case getLatestTransactionsFile nfd fs' bankId b of None \<Rightarrow> startDate | Some info \<Rightarrow> info_startDate info)" for fs'
    by (metis (no_types, lifting) option.case_eq_if option.map_sel option.map_disc_iff)
  show ?thesis unfolding saveTransactionsCSV_def Let_def assms e ..
qed

text \<open>
  Claim C10. Whatever the name and whatever the decomposition table, a sanitized name
  holds only lower-case ASCII letters, digits, underscores and hyphens. Two names whose
  decomposed forms are variants of each other (they differ in the case of letters, in
  combining accents, in characters that are removed) have the same sanitized name, hence
  the same account directory, and saving under either name writes the same file.
\<close>

theorem sanitizeName_alphabet:
  "list_all isNameChar (sanitizeName nfd name)
   \<and> (variant (nfd a) (nfd b) \<longrightarrow>
        sanitizeName nfd a = sanitizeName nfd b
        \<and> getAccountDir nfd bankId a = getAccountDir nfd bankId b
        \<and> saveTransactionsCSV nfd fs now bankId a startDate csv
            = saveTransactionsCSV nfd fs now bankId b startDate csv)"
proof (intro conjI impI)
  show "list_all isNameChar (sanitizeName nfd name)" by (rule sanitizeName_chars)
next
  assume v: "variant (nfd a) (nfd b)"
  show s: "sanitizeName nfd a = sanitizeName nfd b" using v by (rule sanitizeName_variant[of nfd a b])
  then show d: "getAccountDir nfd bankId a = getAccountDir nfd bankId b"
    by (simp add: getAccountDir_def)
  then show "saveTransactionsCSV nfd fs now bankId a startDate csv
            = saveTransactionsCSV nfd fs now bankId b startDate csv"
    by (rule saveTransactionsCSV_dir)
qed

lemmas name_eval = sanitizeName_def toLowerCase_def toLowerChar_def isKept_def isAsciiLetter_def
  isDigit_def isWhiteSpace_def isCombiningMark_def trim_def js_def getAccountDir_def
  getTransactionsDir_def path_join_def DATA_DIR_def

theorem sanitizeName_alphabet_witness:
  "variant [69, 769, 112, 97, 114, 103, 110, 101] (js ''epargne!'')
   \<and> sanitizeName (\<lambda>s. s) [69, 769, 112, 97, 114, 103, 110, 101] = js ''epargne''
   \<and> sanitizeName (\<lambda>s. s) (js ''epargne!'') = js ''epargne''
   \<and> getAccountDir (\<lambda>s. s) CAISSE_EPARGNE (js ''epargne!'') = js ''data/transactions/ce/epargne''
   \<and> getAccountDir (\<lambda>s. s) CAISSE_EPARGNE [69, 769, 112, 97, 114, 103, 110, 101]
       = js ''data/transactions/ce/epargne''
   \<and> list_all isNameChar (sanitizeName (\<lambda>s. s) (js ''Livret A (2)''))"
proof -
  have 1: "variant [69, 769, 112, 97, 114, 103, 110, 101] [69, 112, 97, 114, 103, 110, 101]"
    using variant.accent[of 769 "[69]" "[112, 97, 114, 103, 110, 101]"]
    by (simp add: isCombiningMark_def)
  have 2: "variant [69, 112, 97, 114, 103, 110, 101] [101, 112, 97, 114, 103, 110, 101]"
    using variant.letterCase[of 69 101 "[]" "[112, 97, 114, 103, 110, 101]"]
    by (simp add: toLowerChar_def)
  have 3: "variant [101, 112, 97, 114, 103, 110, 101, 33] [101, 112, 97, 114, 103, 110, 101]"
    using variant.special[of 33 "[101, 112, 97, 114, 103, 110, 101]" "[]"]
    by (simp add: isKept_def isAsciiLetter_def isDigit_def isWhiteSpace_def)
  have v: "variant [69, 769, 112, 97, 114, 103, 110, 101] (js ''epargne!'')"
    using variant.trans[OF variant.trans[OF 1 2] variant.sym[OF 3]] by (simp add: js_def)
  have e: "sanitizeName (\<lambda>s. s) (js ''epargne!'') = js ''epargne''"
    by (simp add: name_eval)
  have d: "getAccountDir (\<lambda>s. s) CAISSE_EPARGNE (js ''epargne!'') = js ''data/transactions/ce/epargne''"
    by (simp add: name_eval)
  from sanitizeName_alphabet[of "\<lambda>s. s" "js ''Livret A (2)''"
      "[69, 769, 112, 97, 114, 103, 110, 101]" "js ''epargne!''" CAISSE_EPARGNE] v e d
  show ?thesis by simp
qed

subsection \<open>The freshness guard\<close>


lemma latestLoop_Some:
  "latestLoop (Some p) files \<noteq> None"
  by (induction files arbitrary: p) (auto split: prod.splits)

lemma latestLoop_mem:
  "latestLoop latest files = Some (n, t) \<Longrightarrow>
     latest = Some (n, t) \<or> (\<exists>f \<in> set files. fname f = n \<and> mtime f = t)"
  by (induction files arbitrary: latest) (auto split: option.splits prod.splits if_splits)

lemma latestLoop_max:
  "latestLoop latest files = Some (n, t) \<Longrightarrow>
     (\<forall>f \<in> set files. mtime f \<le> t) \<and> (\<forall>m s. latest = Some (m, s) \<longrightarrow> s \<le> t)"
proof (induction files arbitrary: latest)
  case Nil
  then show ?case by auto
next
  case (Cons f files)
  show ?case
  proof (cases latest)
    case None
    with Cons.prems have "latestLoop (Some (fname f, mtime f)) files = Some (n, t)" by simp
    from Cons.IH[OF this] None show ?thesis by auto
  next
    case (Some p)
    obtain m s where p: "p = (m, s)" by (cases p)
    show ?thesis
    proof (cases "mtime f > s")
      case True
      with Cons.prems Some p have "latestLoop (Some (fname f, mtime f)) files = Some (n, t)" by simp
      from Cons.IH[OF this] True Some p show ?thesis by auto
    next
      case False
      with Cons.prems Some p have "latestLoop (Some (m, s)) files = Some (n, t)" by simp
      from Cons.IH[OF this] False Some p show ?thesis by auto
    qed
  qed
qed

lemma isoDate_mono: "s \<le> t \<Longrightarrow> isoDate s \<le> isoDate t"
  by (simp add: isoDate_def msPerDay_def zdiv_mono1)

lemma parseTransactionsFilename_length:
  assumes "parseTransactionsFilename f = Some sd"
  shows "length f = 25" "drop 21 f = js ''.csv''" "take 13 f = js ''history-from-''"
    "list_all isDigit (take 8 (drop 13 f))"
proof -
  from assms have a: "take 13 f = js ''history-from-''" "length (take 8 (drop 13 f)) = 8"
    "list_all isDigit (take 8 (drop 13 f))" "drop 21 f = js ''.csv''"
    by (auto simp: parseTransactionsFilename_def Let_def split: if_splits)
  from a(4) have "length (drop 21 f) = 4" by (simp add: js_def)
  then show "length f = 25" by simp
  show "drop 21 f = js ''.csv''" "take 13 f = js ''history-from-''"
    "list_all isDigit (take 8 (drop 13 f))" by (rule a)+
qed

lemma parseTransactionsFilename_csv:
  "parseTransactionsFilename f = Some sd \<Longrightarrow> endsWith f (js ''.csv'') \<and> f \<noteq> []"
  using parseTransactionsFilename_length(1,2)[of f sd]
  by (auto simp: endsWith_def js_def)

lemma latestLoop_None_files:
  "files \<noteq> [] \<Longrightarrow> \<exists>n t. latestLoop None files = Some (n, t)"
  using latestLoop_Some by (cases files) (auto simp: split_paired_all)

lemma getLatestTransactionsFile_Some:
  assumes "getLatestTransactionsFile nfd fs bankId a = Some info"
  shows "\<exists>entries f. fs (getAccountDir nfd bankId a) = Some entries \<and> f \<in> set entries
      \<and> (\<forall>g \<in> set entries. endsWith (fname g) (js ''.csv'') \<longrightarrow> mtime g \<le> mtime f)
      \<and> parseTransactionsFilename (fname f) = Some (info_startDate info)
      \<and> info_filePath info = path_join [getAccountDir nfd bankId a, fname f]
      \<and> info_lastModified info = mtime f"
proof -
  let ?dir = "getAccountDir nfd bankId a"
  from assms obtain entries where e: "fs ?dir = Some entries"
    by (auto simp: getLatestTransactionsFile_def Let_def split: option.splits)
  let ?files = "filter (\<lambda>f. endsWith (fname f) (js ''.csv'')) entries"
  from assms e obtain n t where l: "latestLoop None ?files = Some (n, t)"
    and p: "parseTransactionsFilename n = Some (info_startDate info)"
    and i: "info_filePath info = path_join [?dir, n]" "info_lastModified info = t"
    by (auto simp: getLatestTransactionsFile_def Let_def split: option.splits if_splits)
  from latestLoop_mem[OF l] obtain f where f: "f \<in> set ?files" "fname f = n" "mtime f = t"
    by auto
  from latestLoop_max[OF l] f have "\<forall>g \<in> set ?files. mtime g \<le> mtime f" by auto
  with e f p i show ?thesis by auto
qed

text \<open>In a directory whose \<open>.csv\<close> entries are all archive files, none modified after
  today, the latest file is of today exactly when some archive file is.\<close>

lemma getLatestTransactionsFile_today:
  assumes d: "fs (getAccountDir nfd bankId a) = Some entries"
    and wf: "\<And>f. f \<in> set entries \<Longrightarrow> endsWith (fname f) (js ''.csv'')
               \<Longrightarrow> parseTransactionsFilename (fname f) \<noteq> None"
    and nf: "\<And>f. f \<in> set entries \<Longrightarrow> endsWith (fname f) (js ''.csv'')
               \<Longrightarrow> isoDate (mtime f) \<le> isoDate now"
  shows "(\<exists>info. getLatestTransactionsFile nfd fs bankId a = Some info
            \<and> isoDate (info_lastModified info) = isoDate now)
     \<longleftrightarrow> (\<exists>f \<in> set entries. parseTransactionsFilename (fname f) \<noteq> None
            \<and> isoDate (mtime f) = isoDate now)"
proof
  assume "\<exists>info. getLatestTransactionsFile nfd fs bankId a = Some info
            \<and> isoDate (info_lastModified info) = isoDate now"
  then obtain info where i: "getLatestTransactionsFile nfd fs bankId a = Some info"
    "isoDate (info_lastModified info) = isoDate now" by blast
  from getLatestTransactionsFile_Some[OF i(1)] d i(2)
  show "\<exists>f \<in> set entries. parseTransactionsFilename (fname f) \<noteq> None
            \<and> isoDate (mtime f) = isoDate now" by auto
next
  let ?files = "filter (\<lambda>f. endsWith (fname f) (js ''.csv'')) entries"
  assume "\<exists>f \<in> set entries. parseTransactionsFilename (fname f) \<noteq> None
            \<and> isoDate (mtime f) = isoDate now"
  then obtain f sd where f: "f \<in> set entries" "parseTransactionsFilename (fname f) = Some sd"
    "isoDate (mtime f) = isoDate now" by auto
  from f parseTransactionsFilename_csv have ff: "f \<in> set ?files" by auto
  then have "?files \<noteq> []" by (metis empty_iff list.set(1))
  from latestLoop_None_files[OF this] obtain n t where l: "latestLoop None ?files = Some (n, t)"
    by blast
  from latestLoop_mem[OF l] obtain g where g: "g \<in> set ?files" "fname g = n" "mtime g = t"
    by auto
  from wf[of g] g obtain sg where sg: "parseTransactionsFilename n = Some sg" by auto
  then have ne: "n \<noteq> []" using parseTransactionsFilename_csv by blast
  from latestLoop_max[OF l] ff have "mtime f \<le> t" by auto
  then have "isoDate now \<le> isoDate t" using isoDate_mono f(3) by metis
  moreover have "isoDate t \<le> isoDate now" using nf[of g] g by auto
  ultimately have t: "isoDate t = isoDate now" by simp
  show "\<exists>info. getLatestTransactionsFile nfd fs bankId a = Some info
            \<and> isoDate (info_lastModified info) = isoDate now"
    using d \<open>?files \<noteq> []\<close> l sg ne t
    by (simp add: getLatestTransactionsFile_def Let_def)
qed

lemmas storage_eval = getLatestTransactionsFile_def name_eval endsWith_def
  parseTransactionsFilename_def isoDate_def msPerDay_def Let_def exampleArchive_def
  saveTransactionsCSV_def ensureDir_def readFile_def writeFile_def getTransactionsFilename_def


subsection \<open>The archive file name\<close>

lemma filter_digits: "list_all isDigit c \<Longrightarrow> filter (\<lambda>x. x \<noteq> 45) c = c"
  by (induction c) (auto simp: isDigit_def)

lemma compact_date:
  assumes "list_all isDigit c"
  shows "filter (\<lambda>x. x \<noteq> 45) (take 4 c @ [45] @ take 2 (drop 4 c) @ [45] @ drop 6 c) = c"
proof -
  have d: "list_all isDigit (take 4 c)" "list_all isDigit (take 2 (drop 4 c))"
    "list_all isDigit (drop 6 c)"
    using assms by (auto simp: list_all_iff dest: in_set_takeD in_set_dropD)
  have "filter (\<lambda>x. x \<noteq> 45) (take 4 c @ [45] @ take 2 (drop 4 c) @ [45] @ drop 6 c)
      = take 4 c @ take 2 (drop 4 c) @ drop 6 c"
    using d by (simp add: filter_digits)
  also have "\<dots> = take 4 c @ (take 2 (drop 4 c) @ drop 2 (drop 4 c))" by simp
  also have "\<dots> = c" unfolding append_take_drop_id ..
  finally show ?thesis .
qed

lemma getTransactionsFilename_parse:
  assumes "parseTransactionsFilename f = Some sd"
  shows "getTransactionsFilename sd = f"
proof -
  define c where "c = take 8 (drop 13 f)"
  note l = parseTransactionsFilename_length[OF assms]
  from assms have sd: "sd = take 4 c @ [45] @ take 2 (drop 4 c) @ [45] @ drop 6 c"
    unfolding c_def by (auto simp: parseTransactionsFilename_def Let_def js_def split: if_splits)
  have c: "filter (\<lambda>x. x \<noteq> 45) sd = c"
    unfolding sd using l(4) c_def compact_date by blast
  have "f = take 13 f @ (take 8 (drop 13 f) @ drop 8 (drop 13 f))"
    unfolding append_take_drop_id ..
  also have "\<dots> = js ''history-from-'' @ c @ js ''.csv''" using l(2,3) by (simp add: c_def)
  finally show ?thesis by (simp add: getTransactionsFilename_def c)
qed


lemma find_fname: "f \<in> set entries \<Longrightarrow> \<exists>g. find (\<lambda>e. fname e = fname f) entries = Some g"
  by (induction entries) auto

lemma saveTransactionsCSV_existing:
  assumes "getLatestTransactionsFile nfd fs bankId accountName = Some info"
  shows "\<exists>existingContent.
           readFile fs (getAccountDir nfd bankId accountName)
             (getTransactionsFilename (info_startDate info)) = Some existingContent
         \<and> saveTransactionsCSV nfd fs now bankId accountName startDate csvContent
           = (writeFile fs (getAccountDir nfd bankId accountName)
                (getTransactionsFilename (info_startDate info))
                (mergeCSV existingContent csvContent) now,
              info_filePath info)
         \<and> info_filePath info = path_join [getAccountDir nfd bankId accountName,
                getTransactionsFilename (info_startDate info)]"
proof -
  let ?dir = "getAccountDir nfd bankId accountName"
  from getLatestTransactionsFile_Some[OF assms] obtain entries f where
    e: "fs ?dir = Some entries" and f: "f \<in> set entries"
    and p: "parseTransactionsFilename (fname f) = Some (info_startDate info)"
    and i: "info_filePath info = path_join [?dir, fname f]" by blast
  have n: "getTransactionsFilename (info_startDate info) = fname f"
    by (rule getTransactionsFilename_parse[OF p])
  have d: "ensureDir fs ?dir = fs" using e by (simp add: ensureDir_def)
  from find_fname[OF f] e obtain old where r: "readFile fs ?dir (fname f) = Some old"
    by (auto simp: readFile_def)
  have "saveTransactionsCSV nfd fs now bankId accountName startDate csvContent
      = (writeFile fs ?dir (fname f) (mergeCSV old csvContent) now, path_join [?dir, fname f])"
    by (simp add: saveTransactionsCSV_def Let_def d assms n r)
  with r n i show ?thesis by simp
qed




text \<open>
  Claim C1. The documentation of \<open>saveTransactionsCSV\<close> says that the file name uses
  the earliest start date, of the existing file or of the new download. On an archive
  anchored at 2023-03-01, saving an export whose window starts at 2022-01-01 writes to
  the file anchored at 2023-03-01: the directory holds that file alone afterwards, with
  the rows of both, and no file anchored at 2022-01-01.
\<close>

theorem saveTransactionsCSV_earlier_window:
  "snd (saveTransactionsCSV (\<lambda>s. s) exampleArchive 1700090000000 CAISSE_EPARGNE (js ''Livret A'')
          (js ''2022-01-01'') (join [10] [js ''Date;Libelle'', js ''10/01/2022;B'']))
     = js ''data/transactions/ce/livret_a/history-from-20230301.csv''
   \<and> map fname (the (fst (saveTransactionsCSV (\<lambda>s. s) exampleArchive 1700090000000 CAISSE_EPARGNE
          (js ''Livret A'') (js ''2022-01-01'') (join [10] [js ''Date;Libelle'', js ''10/01/2022;B'']))
        (js ''data/transactions/ce/livret_a'')))
     = [js ''history-from-20230301.csv'']
   \<and> getTransactionsFilename (js ''2022-01-01'') = js ''history-from-20220101.csv''
   \<and> readFile (fst (saveTransactionsCSV (\<lambda>s. s) exampleArchive 1700090000000 CAISSE_EPARGNE
          (js ''Livret A'') (js ''2022-01-01'') (join [10] [js ''Date;Libelle'', js ''10/01/2022;B''])))
        (js ''data/transactions/ce/livret_a'') (js ''history-from-20230301.csv'')
     = Some (join [10] [js ''Date;Libelle'', js ''05/03/2023;A'', js ''10/01/2022;B''])"
  by (simp add: storage_eval merge_eval)

text \<open>The life of an archive directory: the first save enters one file named after the
  start date of the run; every later save rewrites that one file under its own name, so
  the anchor in the name never changes.\<close>

lemma saveTransactionsCSV_first_write:
  assumes "fs (getAccountDir nfd bankId a) = None \<or> fs (getAccountDir nfd bankId a) = Some []"
  shows "fst (saveTransactionsCSV nfd fs now bankId a startDate csvContent) (getAccountDir nfd bankId a)
       = Some [\<lparr>fname = getTransactionsFilename startDate, mtime = now, content = csvContent\<rparr>]"
  using assms
  by (auto simp: saveTransactionsCSV_def Let_def ensureDir_def getLatestTransactionsFile_def
      readFile_def writeFile_def)

lemma saveTransactionsCSV_later_write:
  assumes d: "fs (getAccountDir nfd bankId a) = Some [f]"
    and p: "parseTransactionsFilename (fname f) = Some anchor"
  shows "fst (saveTransactionsCSV nfd fs now bankId a startDate csvContent) (getAccountDir nfd bankId a)
       = Some [f\<lparr>mtime := now, content := mergeCSV (content f) csvContent\<rparr>]"
proof -
  let ?dir = "getAccountDir nfd bankId a"
  from parseTransactionsFilename_csv[OF p] have c: "endsWith (fname f) (js ''.csv'')" "fname f \<noteq> []"
    by simp_all
  have l: "getLatestTransactionsFile nfd fs bankId a
      = Some \<lparr>info_accountName = a, info_bankId = bankId, info_startDate = anchor,
          info_filePath = path_join [?dir, fname f], info_lastModified = mtime f\<rparr>"
    using d p c by (simp add: getLatestTransactionsFile_def Let_def)
  from saveTransactionsCSV_existing[OF l, of now startDate csvContent]
  obtain old where r: "readFile fs ?dir (getTransactionsFilename anchor) = Some old"
    and s: "saveTransactionsCSV nfd fs now bankId a startDate csvContent
      = (writeFile fs ?dir (getTransactionsFilename anchor) (mergeCSV old csvContent) now,
         path_join [?dir, fname f])"
    by auto
  have n: "getTransactionsFilename anchor = fname f" by (rule getTransactionsFilename_parse[OF p])
  from r d have o: "old = content f" by (simp add: readFile_def n)
  show ?thesis unfolding s n o using d by (simp add: writeFile_def)
qed


section \<open>Properties of the credential resolver\<close>

lemma extractTokenFromStorage_skip:
  "list_all (\<lambda>e. \<not> entryMatches JSON_parse e) pre \<Longrightarrow>
   extractTokenFromStorage JSON_parse (pre @ rest) = extractTokenFromStorage JSON_parse rest"
proof (induction pre)
  case Nil
  then show ?case by simp
next
  case (Cons e pre)
  obtain k v where e: "e = (k, v)" by (cases e)
  from Cons.prems have "\<not> entryMatches JSON_parse (k, v)" and p: "list_all (\<lambda>e. \<not> entryMatches JSON_parse e) pre"
    by (simp_all add: e)
  then have "v = [] \<or> (matchBearer v = None \<and> jsonToken JSON_parse v = None
      \<and> \<not> (keyLooksLikeToken k \<and> length v > 10))"
    by (auto simp: entryMatches_def)
  then show ?case using Cons.IH[OF p] by (auto simp: e)
qed

lemma extractTokenFromStorage_none:
  "list_all (\<lambda>e. \<not> entryMatches JSON_parse e) entries \<Longrightarrow>
   extractTokenFromStorage JSON_parse entries = None"
  using extractTokenFromStorage_skip[of JSON_parse entries "[]"] by simp

lemma matchBearerAt_header:
  assumes "matchBearerAt s = Some m"
  shows "buildAuthorizationHeader (Some m) = m"
proof -
  let ?word = "take 6 s" and ?spaces = "takeWhile isWhiteSpace (drop 6 s)"
  let ?token = "takeWhile isTokenChar (dropWhile isWhiteSpace (drop 6 s))"
  from assms have m: "m = ?word @ ?spaces @ ?token" and w: "toLowerCase ?word = js ''bearer''"
    and s: "?spaces \<noteq> []"
    by (auto simp: matchBearerAt_def Let_def split: if_splits)
  from w have "length (toLowerCase ?word) = 6" by (simp add: js_def)
  then have l: "length ?word = 6" by (simp add: toLowerCase_def)
  then have t: "take 6 m = ?word" "drop 6 m = ?spaces @ ?token" unfolding m by simp_all
  have "takeWhile isWhiteSpace (?spaces @ ?token) = ?spaces @ takeWhile isWhiteSpace ?token"
    by (rule takeWhile_append2) (auto dest: set_takeWhileD)
  then have "takeWhile isWhiteSpace (drop 6 m) \<noteq> []" using s unfolding t by simp
  moreover have "m \<noteq> []" using s m by simp
  ultimately show ?thesis using w by (simp add: buildAuthorizationHeader_def t(1))
qed

lemma matchBearer_header: "matchBearer v = Some m \<Longrightarrow> buildAuthorizationHeader (Some m) = m"
  by (induction v) (auto split: option.splits dest: matchBearerAt_header)

text \<open>
  Claim C9. A non-empty authorization value seen on a request is returned as it is. With
  none, the entries are scanned in order, and the first entry on which an attempt
  succeeds decides: its Bearer match if its value has one (the match is the header), else
  the token of its JSON object, else its whole value when the key looks like a token and
  the value has more than ten code units. When no entry matches, the header is empty; in
  every case the resolver returns a result, it never fails.
\<close>

theorem resolveAuthHeader_chain:
  "(fallbackAuthHeader \<noteq> [] \<longrightarrow>
      resolveAuthHeader JSON_parse entries fallbackAuthHeader
        = \<lparr>auth_header = fallbackAuthHeader, auth_source = js ''request''\<rparr>)
   \<and> (list_all (\<lambda>e. \<not> entryMatches JSON_parse e) entries \<longrightarrow>
      resolveAuthHeader JSON_parse entries [] = \<lparr>auth_header = [], auth_source = js ''none''\<rparr>)
   \<and> (list_all (\<lambda>e. \<not> entryMatches JSON_parse e) pre \<and> value \<noteq> [] \<longrightarrow>
        (\<forall>m. matchBearer value = Some m \<longrightarrow>
           resolveAuthHeader JSON_parse (pre @ (key, value) # post) []
             = \<lparr>auth_header = m, auth_source = js ''storage:'' @ key\<rparr>)
      \<and> (\<forall>t. matchBearer value = None \<and> jsonToken JSON_parse value = Some t \<longrightarrow>
           resolveAuthHeader JSON_parse (pre @ (key, value) # post) []
             = \<lparr>auth_header = buildAuthorizationHeader (Some t),
                auth_source = js ''storage:'' @ key\<rparr>)
      \<and> (matchBearer value = None \<and> jsonToken JSON_parse value = None
           \<and> keyLooksLikeToken key \<and> length value > 10 \<longrightarrow>
           resolveAuthHeader JSON_parse (pre @ (key, value) # post) []
             = \<lparr>auth_header = buildAuthorizationHeader (Some value),
                auth_source = js ''storage:'' @ key\<rparr>))"
proof (intro conjI impI allI)
  assume "fallbackAuthHeader \<noteq> []"
  then show "resolveAuthHeader JSON_parse entries fallbackAuthHeader
        = \<lparr>auth_header = fallbackAuthHeader, auth_source = js ''request''\<rparr>"
    by (simp add: resolveAuthHeader_def)
next
  assume "list_all (\<lambda>e. \<not> entryMatches JSON_parse e) entries"
  then show "resolveAuthHeader JSON_parse entries [] = \<lparr>auth_header = [], auth_source = js ''none''\<rparr>"
    by (simp add: resolveAuthHeader_def extractTokenFromStorage_none)
next
  fix m
  assume "list_all (\<lambda>e. \<not> entryMatches JSON_parse e) pre \<and> value \<noteq> []" "matchBearer value = Some m"
  then show "resolveAuthHeader JSON_parse (pre @ (key, value) # post) []
             = \<lparr>auth_header = m, auth_source = js ''storage:'' @ key\<rparr>"
    by (simp add: resolveAuthHeader_def extractTokenFromStorage_skip matchBearer_header)
next
  fix t
  assume "list_all (\<lambda>e. \<not> entryMatches JSON_parse e) pre \<and> value \<noteq> []"
    "matchBearer value = None \<and> jsonToken JSON_parse value = Some t"
  then show "resolveAuthHeader JSON_parse (pre @ (key, value) # post) []
             = \<lparr>auth_header = buildAuthorizationHeader (Some t),
                auth_source = js ''storage:'' @ key\<rparr>"
    by (simp add: resolveAuthHeader_def extractTokenFromStorage_skip)
next
  assume "list_all (\<lambda>e. \<not> entryMatches JSON_parse e) pre \<and> value \<noteq> []"
    "matchBearer value = None \<and> jsonToken JSON_parse value = None
           \<and> keyLooksLikeToken key \<and> length value > 10"
  then show "resolveAuthHeader JSON_parse (pre @ (key, value) # post) []
             = \<lparr>auth_header = buildAuthorizationHeader (Some value),
                auth_source = js ''storage:'' @ key\<rparr>"
    by (simp add: resolveAuthHeader_def extractTokenFromStorage_skip)
qed

lemmas auth_eval = entryMatches_def matchBearerAt_def toLowerCase_def toLowerChar_def
  isWhiteSpace_def isTokenChar_def isAsciiLetter_def isDigit_def jsonToken_def trim_def
  orElse_def keyLooksLikeToken_def js_def buildAuthorizationHeader_def Let_def

theorem resolveAuthHeader_chain_witness:
  "resolveAuthHeader (\<lambda>v. None) [(js ''theme'', js ''dark'')] (js ''Bearer fromrequest'')
     = \<lparr>auth_header = js ''Bearer fromrequest'', auth_source = js ''request''\<rparr>
   \<and> resolveAuthHeader (\<lambda>v. None) [(js ''theme'', js ''dark'')] []
     = \<lparr>auth_header = [], auth_source = js ''none''\<rparr>
   \<and> resolveAuthHeader (\<lambda>v. None)
        [(js ''theme'', js ''dark''), (js ''authToken'', js ''x bearer abc.def-1 y''),
         (js ''other'', js ''Bearer zzz'')] []
     = \<lparr>auth_header = js ''bearer abc.def-1'', auth_source = js ''storage:authToken''\<rparr>
   \<and> resolveAuthHeader
        (\<lambda>v. if v = js ''{oidc}'' then Some (JObj [(js ''token'', JStr (js ''abcdefghijkl''))])
             else None)
        [(js ''theme'', js ''dark''), (js ''authState'', js ''{oidc}'')] []
     = \<lparr>auth_header = js ''Bearer abcdefghijkl'', auth_source = js ''storage:authState''\<rparr>
   \<and> resolveAuthHeader (\<lambda>v. None)
        [(js ''theme'', js ''dark''), (js ''authToken'', js ''0123456789abc'')] []
     = \<lparr>auth_header = js ''Bearer 0123456789abc'', auth_source = js ''storage:authToken''\<rparr>"
proof -
  let ?p = "\<lambda>v. if v = js ''{oidc}'' then Some (JObj [(js ''token'', JStr (js ''abcdefghijkl''))])
             else None"
  have n: "list_all (\<lambda>e. \<not> entryMatches JSON_parse e) [(js ''theme'', js ''dark'')]" for JSON_parse
    by (simp add: auth_eval)
  have a: "matchBearer (js ''x bearer abc.def-1 y'') = Some (js ''bearer abc.def-1'')"
    by (simp add: auth_eval)
  have b: "matchBearer (js ''{oidc}'') = None" "jsonToken ?p (js ''{oidc}'') = Some (js ''abcdefghijkl'')"
    by (simp_all add: auth_eval)
  have c: "matchBearer (js ''0123456789abc'') = None" "jsonToken (\<lambda>v. None) (js ''0123456789abc'') = None"
    "keyLooksLikeToken (js ''authToken'')" "length (js ''0123456789abc'') > 10"
    by (simp_all add: auth_eval)
  have v: "js ''x bearer abc.def-1 y'' \<noteq> []" "js ''{oidc}'' \<noteq> []" "js ''0123456789abc'' \<noteq> []"
    by (simp_all add: js_def)
  have f: "js ''Bearer fromrequest'' \<noteq> []" by (simp add: js_def)
  note t = resolveAuthHeader_chain[where pre = "[(js ''theme'', js ''dark'')]"
      and entries = "[(js ''theme'', js ''dark'')]"]
  have 1: "resolveAuthHeader (\<lambda>v. None) [(js ''theme'', js ''dark'')] (js ''Bearer fromrequest'')
     = \<lparr>auth_header = js ''Bearer fromrequest'', auth_source = js ''request''\<rparr>"
    using t[of "js ''Bearer fromrequest''" "\<lambda>v. None"] f by blast
  have 2: "resolveAuthHeader (\<lambda>v. None) [(js ''theme'', js ''dark'')] []
     = \<lparr>auth_header = [], auth_source = js ''none''\<rparr>"
    using t[of "[]" "\<lambda>v. None"] n by blast
  have 3: "resolveAuthHeader (\<lambda>v. None)
        ([(js ''theme'', js ''dark'')] @ (js ''authToken'', js ''x bearer abc.def-1 y'')
          # [(js ''other'', js ''Bearer zzz'')]) []
     = \<lparr>auth_header = js ''bearer abc.def-1'', auth_source = js ''storage:'' @ js ''authToken''\<rparr>"
    using t[of "[]" "\<lambda>v. None" "js ''x bearer abc.def-1 y''" "js ''authToken''"
        "[(js ''other'', js ''Bearer zzz'')]"] n a v by blast
  have 4: "resolveAuthHeader ?p ([(js ''theme'', js ''dark'')] @ (js ''authState'', js ''{oidc}'') # []) []
     = \<lparr>auth_header = buildAuthorizationHeader (Some (js ''abcdefghijkl'')),
        auth_source = js ''storage:'' @ js ''authState''\<rparr>"
    using t[of "[]" ?p "js ''{oidc}''" "js ''authState''" "[]"] n b v by blast
  have 5: "resolveAuthHeader (\<lambda>v. None)
        ([(js ''theme'', js ''dark'')] @ (js ''authToken'', js ''0123456789abc'') # []) []
     = \<lparr>auth_header = buildAuthorizationHeader (Some (js ''0123456789abc'')),
        auth_source = js ''storage:'' @ js ''authToken''\<rparr>"
    using t[of "[]" "\<lambda>v. None" "js ''0123456789abc''" "js ''authToken''" "[]"] n c v by blast
  have h: "buildAuthorizationHeader (Some (js ''abcdefghijkl'')) = js ''Bearer abcdefghijkl''"
    "buildAuthorizationHeader (Some (js ''0123456789abc'')) = js ''Bearer 0123456789abc''"
    by (simp_all add: auth_eval)
  have s: "js ''storage:'' @ js ''authToken'' = js ''storage:authToken''"
    "js ''storage:'' @ js ''authState'' = js ''storage:authState''"
    by (simp_all add: js_def)
  from 1 2 3 4 5 show ?thesis unfolding h s by simp
qed

section \<open>Properties of the download run\<close>

lemma createLoop_calls:
  "snd (createLoop remote startDate endDate authHeader k accountsInfo)
     = map (\<lambda>p. CreateRequest p startDate endDate authHeader) (truthyIds accountsInfo)"
proof (induction accountsInfo arbitrary: k)
  case Nil
  then show ?case by (simp add: truthyIds_def)
next
  case (Cons a accountsInfo)
  show ?case
  proof (cases "truthyId (adi_pfmContractId a)")
    case None
    then show ?thesis using Cons.IH[of k] by (simp add: truthyIds_def)
  next
    case (Some p)
    then show ?thesis using Cons.IH[of "Suc k"]
      by (cases "createLoop remote startDate endDate authHeader (Suc k) accountsInfo")
         (simp add: truthyIds_def)
  qed
qed

lemma createLoop_count:
  "fst (createLoop remote startDate endDate authHeader k accountsInfo) = 0 \<longleftrightarrow>
     (\<forall>j < length (truthyIds accountsInfo).
        createResponse remote (k + j) (truthyIds accountsInfo ! j) \<noteq> CreateOk)"
proof (induction accountsInfo arbitrary: k)
  case Nil
  then show ?case by (simp add: truthyIds_def)
next
  case (Cons a accountsInfo)
  show ?case
  proof (cases "truthyId (adi_pfmContractId a)")
    case None
    then show ?thesis using Cons.IH[of k] by (simp add: truthyIds_def)
  next
    case (Some p)
    let ?ids = "truthyIds accountsInfo"
    have ids: "truthyIds (a # accountsInfo) = p # ?ids"
      using Some by (simp add: truthyIds_def)
    have "fst (createLoop remote startDate endDate authHeader k (a # accountsInfo)) = 0 \<longleftrightarrow>
        createResponse remote k p \<noteq> CreateOk
        \<and> fst (createLoop remote startDate endDate authHeader (Suc k) accountsInfo) = 0"
      using Some by (simp split: prod.splits)
    also have "\<dots> \<longleftrightarrow> createResponse remote k p \<noteq> CreateOk
        \<and> (\<forall>j < length ?ids. createResponse remote (Suc k + j) (?ids ! j) \<noteq> CreateOk)"
      using Cons.IH[of "Suc k"] by simp
    also have "\<dots> \<longleftrightarrow> (\<forall>j < length (p # ?ids). createResponse remote (k + j) ((p # ?ids) ! j) \<noteq> CreateOk)"
    proof
      assume h: "createResponse remote k p \<noteq> CreateOk
        \<and> (\<forall>j < length ?ids. createResponse remote (Suc k + j) (?ids ! j) \<noteq> CreateOk)"
      show "\<forall>j < length (p # ?ids). createResponse remote (k + j) ((p # ?ids) ! j) \<noteq> CreateOk"
      proof (intro allI impI)
        fix j assume "j < length (p # ?ids)"
        then show "createResponse remote (k + j) ((p # ?ids) ! j) \<noteq> CreateOk"
          using h by (cases j) auto
      qed
    next
      assume h: "\<forall>j < length (p # ?ids). createResponse remote (k + j) ((p # ?ids) ! j) \<noteq> CreateOk"
      from h[rule_format, of 0] have "createResponse remote k p \<noteq> CreateOk" by simp
      moreover have "createResponse remote (Suc k + j) (?ids ! j) \<noteq> CreateOk" if "j < length ?ids" for j
        using h[rule_format, of "Suc j"] that by simp
      ultimately show "createResponse remote k p \<noteq> CreateOk
        \<and> (\<forall>j < length ?ids. createResponse remote (Suc k + j) (?ids ! j) \<noteq> CreateOk)" by simp
    qed
    finally show ?thesis unfolding ids .
  qed
qed

lemma downloadAccountCSV_calls:
  "downloadAccountCSV nfd remote fs now a r p startDate = (ok, fs', calls) \<Longrightarrow>
     filter isPrepare calls = [PrepareDownload r] \<and> filter isCreate calls = []
     \<and> list_all isDownload calls"
  by (auto simp: downloadAccountCSV_def Let_def split: prepareOutcome.splits fetchOutcome.splits if_splits)

lemma downloadLoop_calls:
  "downloadLoop nfd remote now startDate infos fs = (fs', n, calls) \<Longrightarrow>
     filter isPrepare calls = map PrepareDownload (requestIds infos)
     \<and> filter isCreate calls = [] \<and> list_all isDownload calls"
proof (induction infos arbitrary: fs fs' n calls)
  case Nil
  then show ?case by (simp add: requestIds_def)
next
  case (Cons a infos)
  show ?case
  proof (cases "truthyId (adi_historyRequestId a)")
    case None
    with Cons.prems have "downloadLoop nfd remote now startDate infos fs = (fs', n, calls)" by simp
    from Cons.IH[OF this] None show ?thesis
      by (simp add: requestIds_def split: option.splits)
  next
    case r: (Some r)
    show ?thesis
    proof (cases "truthyId (adi_pfmContractId a)")
      case None
      with Cons.prems r have "downloadLoop nfd remote now startDate infos fs = (fs', n, calls)" by simp
      from Cons.IH[OF this] None show ?thesis
        by (simp add: requestIds_def)
    next
      case p: (Some p)
      obtain ok fs1 cs where d: "downloadAccountCSV nfd remote fs now a r p startDate = (ok, fs1, cs)"
        by (cases "downloadAccountCSV nfd remote fs now a r p startDate") auto
      obtain fs2 m cs' where l: "downloadLoop nfd remote now startDate infos fs1 = (fs2, m, cs')"
        by (cases "downloadLoop nfd remote now startDate infos fs1") auto
      from Cons.prems r p d l have c: "calls = cs @ cs'" by simp
      from downloadAccountCSV_calls[OF d] Cons.IH[OF l] show ?thesis
        unfolding c using r p by (simp add: requestIds_def)
    qed
  qed
qed

lemma reuseInfos_all:
  "allHaveCorrectDateRange targets byAccount startDate today \<Longrightarrow>
   reuseInfos names byAccount targets
     = Inr (List.map_filter (\<lambda>p. map_option (toDownloadInfo names) (byAccount p)) targets)"
  by (induction targets)
     (auto simp: allHaveCorrectDateRange_def split: option.splits)

lemma foldl_retain:
  "foldl (retain targets) byAccount items p =
     (case byAccount p of
        Some item \<Rightarrow> Some item
      | None \<Rightarrow> if p \<in> set targets
                then find (\<lambda>item. truthyId (item_pfmContractId item) = Some p) items
                else None)"
proof (induction items arbitrary: byAccount)
  case Nil
  then show ?case by (simp split: option.splits)
next
  case (Cons item items)
  show ?case
    unfolding foldl_Cons Cons.IH
    by (auto simp: retain_def split: option.splits)
qed

text \<open>The history request retained for a target account is the first one listed for
  it.\<close>

lemma historyByAccount_first:
  "historyByAccount targets items p =
     (if p \<in> set targets then find (\<lambda>item. truthyId (item_pfmContractId item) = Some p) items
      else None)"
  by (simp add: historyByAccount_def foldl_retain)

lemma historyByAccount_pfm:
  "historyByAccount targets items p = Some item \<Longrightarrow> truthyId (item_pfmContractId item) = Some p"
  by (auto simp: historyByAccount_first find_Some_iff split: if_splits)

lemma set_targetPfmContractIds: "set (targetPfmContractIds infos) = set (truthyIds infos)"
  by (simp add: targetPfmContractIds_def set_foldl_set_add)

lemma allHaveCorrectDateRange_iff:
  "allHaveCorrectDateRange targets byAccount startDate today
     \<longleftrightarrow> list_all (hasCurrentRequest byAccount startDate today) targets"
  by (auto simp: allHaveCorrectDateRange_def hasCurrentRequest_def list_all_iff split: option.splits)

lemma requestIds_retained:
  "requestIds (List.map_filter (\<lambda>p. map_option (toDownloadInfo names)
       (historyByAccount targets items p)) ps)
     = List.map_filter (retainedRequestId (historyByAccount targets items)) ps"
proof (induction ps)
  case Nil
  then show ?case by (simp add: requestIds_def)
next
  case (Cons p ps)
  show ?case
  proof (cases "historyByAccount targets items p")
    case None
    with Cons show ?thesis by (simp add: retainedRequestId_def)
  next
    case (Some item)
    from historyByAccount_pfm[OF Some] have "truthyId (item_pfmContractId item) = Some p" .
    with Cons Some show ?thesis
      by (simp add: retainedRequestId_def requestIds_def toDownloadInfo_def split: option.splits)
  qed
qed

lemma downloadTransactions_reuse:
  assumes g: "\<not> hasTransactionsForToday nfd fs (clock_now clock) CAISSE_EPARGNE
                (map ai_accountName (ses_accountsFromApi session))"
    and a: "allHaveCorrectDateRange (runTargets session remote) (runRetained session remote)
              (clock_startDate clock) (clock_today clock)"
  shows "filter isCreate (run_calls (downloadTransactions nfd JSON_parse session remote clock fs)) = []"
    and "filter isPrepare (run_calls (downloadTransactions nfd JSON_parse session remote clock fs))
       = map PrepareDownload (List.map_filter (retainedRequestId (runRetained session remote))
           (runTargets session remote))"
    and "run_outcome (downloadTransactions nfd JSON_parse session remote clock fs) = Inr True"
proof -
  let ?names = "pfmToName (ses_accountsFromApi session)"
  let ?infos = "List.map_filter (\<lambda>p. map_option (toDownloadInfo ?names) (runRetained session remote p))
      (runTargets session remote)"
  obtain fs' n cs where l: "downloadLoop nfd remote (clock_now clock) (clock_startDate clock) ?infos fs
      = (fs', n, cs)" by (metis prod_cases3)
  have r: "downloadTransactions nfd JSON_parse session remote clock fs
      = \<lparr>run_outcome = Inr True, run_files = fs',
         run_calls = [GetLastExportMetadata, ListRequests] @ [] @ cs, run_downloaded = n\<rparr>"
    using g a by (simp add: downloadTransactions_def Let_def reuseInfos_all[OF a] l)
  from downloadLoop_calls[OF l]
  have c: "filter isPrepare cs = map PrepareDownload (requestIds ?infos)" "filter isCreate cs = []"
    by simp_all
  show "filter isCreate (run_calls (downloadTransactions nfd JSON_parse session remote clock fs)) = []"
    unfolding r using c(2) by simp
  show "filter isPrepare (run_calls (downloadTransactions nfd JSON_parse session remote clock fs))
       = map PrepareDownload (List.map_filter (retainedRequestId (runRetained session remote))
           (runTargets session remote))"
    unfolding r using c(1) requestIds_retained[of ?names "runTargets session remote"
        "historyRequestItems remote" "runTargets session remote"]
    by (simp add: runRetained_def)
  show "run_outcome (downloadTransactions nfd JSON_parse session remote clock fs) = Inr True"
    unfolding r by simp
qed

lemma createDownloadRequests_calls:
  "set (map (\<lambda>p. CreateRequest p startDate endDate authHeader) (truthyIds accountsInfo))
     \<subseteq> set (snd (createDownloadRequests remote accountsInfo startDate endDate authHeader names targets))"
  using createLoop_calls[of remote startDate endDate authHeader 0 accountsInfo]
  by (cases "createLoop remote startDate endDate authHeader 0 accountsInfo")
     (auto simp: createDownloadRequests_def Let_def split: option.splits)

lemma run_calls_recreate:
  assumes g: "\<not> hasTransactionsForToday nfd fs (clock_now clock) CAISSE_EPARGNE
                (map ai_accountName (ses_accountsFromApi session))"
    and a: "\<not> allHaveCorrectDateRange (runTargets session remote) (runRetained session remote)
              (clock_startDate clock) (clock_today clock)"
  shows "set (snd (createDownloadRequests remote (runAccountsInfo session remote)
            (clock_startDate clock) (clock_today clock) (runAuthHeader JSON_parse session)
            (pfmToName (ses_accountsFromApi session)) (runTargets session remote)))
       \<subseteq> set (run_calls (downloadTransactions nfd JSON_parse session remote clock fs))"
  using g a
  by (auto simp: downloadTransactions_def Let_def split: prod.splits sum.splits)

lemma downloadTransactions_recreate:
  assumes g: "\<not> hasTransactionsForToday nfd fs (clock_now clock) CAISSE_EPARGNE
                (map ai_accountName (ses_accountsFromApi session))"
    and a: "\<not> allHaveCorrectDateRange (runTargets session remote) (runRetained session remote)
              (clock_startDate clock) (clock_today clock)"
    and p: "pfmId \<in> set (runTargets session remote)"
  shows "CreateRequest pfmId (clock_startDate clock) (clock_today clock)
           (runAuthHeader JSON_parse session)
         \<in> set (run_calls (downloadTransactions nfd JSON_parse session remote clock fs))"
proof -
  from p have "pfmId \<in> set (truthyIds (runAccountsInfo session remote))"
    by (simp add: runTargets_def set_targetPfmContractIds)
  then have "CreateRequest pfmId (clock_startDate clock) (clock_today clock)
           (runAuthHeader JSON_parse session)
      \<in> set (map (\<lambda>p. CreateRequest p (clock_startDate clock) (clock_today clock)
           (runAuthHeader JSON_parse session)) (truthyIds (runAccountsInfo session remote)))"
    by auto
  with createDownloadRequests_calls run_calls_recreate[OF g a] show ?thesis by blast
qed

text \<open>
  Claim C3. In a run that the freshness guard lets through: if every target account has
  a retained history request whose start date is the start of the window and whose end
  date is today, the run makes no create request, and the prepare calls it makes are
  those of the retained requests' identifiers, in the order of the targets; if some
  target account has none, the run makes a create request over the whole window for every
  target account.
\<close>

theorem downloadTransactions_reuse_or_recreate:
  assumes "\<not> hasTransactionsForToday nfd fs (clock_now clock) CAISSE_EPARGNE
                (map ai_accountName (ses_accountsFromApi session))"
  shows "(list_all (hasCurrentRequest (runRetained session remote) (clock_startDate clock)
                     (clock_today clock)) (runTargets session remote) \<longrightarrow>
            filter isCreate (run_calls (downloadTransactions nfd JSON_parse session remote clock fs)) = []
          \<and> filter isPrepare (run_calls (downloadTransactions nfd JSON_parse session remote clock fs))
              = map PrepareDownload (List.map_filter (retainedRequestId (runRetained session remote))
                  (runTargets session remote)))
       \<and> (\<not> list_all (hasCurrentRequest (runRetained session remote) (clock_startDate clock)
                     (clock_today clock)) (runTargets session remote) \<longrightarrow>
            (\<forall>pfmId \<in> set (runTargets session remote).
               CreateRequest pfmId (clock_startDate clock) (clock_today clock)
                 (runAuthHeader JSON_parse session)
               \<in> set (run_calls (downloadTransactions nfd JSON_parse session remote clock fs))))"
  using downloadTransactions_reuse(1,2)[OF assms] downloadTransactions_recreate[OF assms]
  unfolding allHaveCorrectDateRange_iff by blast

lemma createDownloadRequests_fatal:
  assumes "\<forall>j < length (truthyIds accountsInfo).
             createResponse remote j (truthyIds accountsInfo ! j) \<noteq> CreateOk"
  shows "createDownloadRequests remote accountsInfo startDate endDate authHeader names targets
       = (Inl AllRequestsFailed,
          map (\<lambda>p. CreateRequest p startDate endDate authHeader) (truthyIds accountsInfo))"
proof -
  obtain n cs where c: "createLoop remote startDate endDate authHeader 0 accountsInfo = (n, cs)"
    by (cases "createLoop remote startDate endDate authHeader 0 accountsInfo") auto
  from createLoop_count[of remote startDate endDate authHeader 0 accountsInfo] assms c
  have "n = 0" by simp
  moreover from createLoop_calls[of remote startDate endDate authHeader 0 accountsInfo] c
  have "cs = map (\<lambda>p. CreateRequest p startDate endDate authHeader) (truthyIds accountsInfo)"
    by simp
  ultimately show ?thesis by (simp add: createDownloadRequests_def c)
qed

lemma createDownloadRequests_not_fatal:
  assumes "\<exists>j < length (truthyIds accountsInfo).
             createResponse remote j (truthyIds accountsInfo ! j) = CreateOk"
  shows "fst (createDownloadRequests remote accountsInfo startDate endDate authHeader names targets)
           \<noteq> Inl AllRequestsFailed"
    and "updatedItems remote \<noteq> None \<Longrightarrow>
         \<exists>infos. fst (createDownloadRequests remote accountsInfo startDate endDate authHeader
                        names targets) = Inr infos"
proof -
  obtain n cs where c: "createLoop remote startDate endDate authHeader 0 accountsInfo = (n, cs)"
    by (cases "createLoop remote startDate endDate authHeader 0 accountsInfo") auto
  from createLoop_count[of remote startDate endDate authHeader 0 accountsInfo] assms c
  have n: "n \<noteq> 0" by auto
  show "fst (createDownloadRequests remote accountsInfo startDate endDate authHeader names targets)
           \<noteq> Inl AllRequestsFailed"
    using n by (simp add: createDownloadRequests_def c Let_def split: option.splits)
  show "\<exists>infos. fst (createDownloadRequests remote accountsInfo startDate endDate authHeader
                        names targets) = Inr infos" if "updatedItems remote \<noteq> None"
    using n that by (auto simp: createDownloadRequests_def c Let_def split: option.splits)
qed

lemma run_outcome_recreate:
  assumes g: "\<not> hasTransactionsForToday nfd fs (clock_now clock) CAISSE_EPARGNE
                (map ai_accountName (ses_accountsFromApi session))"
    and a: "\<not> allHaveCorrectDateRange (runTargets session remote) (runRetained session remote)
              (clock_startDate clock) (clock_today clock)"
  shows "run_outcome (downloadTransactions nfd JSON_parse session remote clock fs)
       = (case fst (createDownloadRequests remote (runAccountsInfo session remote)
            (clock_startDate clock) (clock_today clock) (runAuthHeader JSON_parse session)
            (pfmToName (ses_accountsFromApi session)) (runTargets session remote)) of
            Inl e \<Rightarrow> Inl e | Inr infos \<Rightarrow> Inr True)"
  using g a
  by (auto simp: downloadTransactions_def Let_def split: prod.splits sum.splits)

text \<open>
  Claim C4. In a run that the freshness guard lets through and that cannot reuse the
  listed requests: if no create request is answered with success, the run ends with the
  fatal error, its calls are the two listings and the create requests and nothing else
  (no second listing, no prepare, no fetch), and the file system is as it was; if some
  create request is answered with success, the run does not end with that error, however
  many others failed, and it returns \<open>true\<close> whenever the second listing is
  delivered.
\<close>

theorem downloadTransactions_fatal_when_no_create_succeeds:
  assumes "\<not> hasTransactionsForToday nfd fs (clock_now clock) CAISSE_EPARGNE
                (map ai_accountName (ses_accountsFromApi session))"
    and "\<not> list_all (hasCurrentRequest (runRetained session remote) (clock_startDate clock)
                     (clock_today clock)) (runTargets session remote)"
  shows "((\<forall>j < length (truthyIds (runAccountsInfo session remote)).
             createResponse remote j (truthyIds (runAccountsInfo session remote) ! j) \<noteq> CreateOk) \<longrightarrow>
            run_outcome (downloadTransactions nfd JSON_parse session remote clock fs)
              = Inl AllRequestsFailed
          \<and> run_calls (downloadTransactions nfd JSON_parse session remote clock fs)
              = [GetLastExportMetadata, ListRequests]
                @ map (\<lambda>p. CreateRequest p (clock_startDate clock) (clock_today clock)
                            (runAuthHeader JSON_parse session))
                    (truthyIds (runAccountsInfo session remote))
          \<and> filter isDownload (run_calls (downloadTransactions nfd JSON_parse session remote clock fs)) = []
          \<and> run_files (downloadTransactions nfd JSON_parse session remote clock fs) = fs)
       \<and> ((\<exists>j < length (truthyIds (runAccountsInfo session remote)).
             createResponse remote j (truthyIds (runAccountsInfo session remote) ! j) = CreateOk) \<longrightarrow>
            run_outcome (downloadTransactions nfd JSON_parse session remote clock fs)
              \<noteq> Inl AllRequestsFailed
          \<and> (updatedItems remote \<noteq> None \<longrightarrow>
               run_outcome (downloadTransactions nfd JSON_parse session remote clock fs) = Inr True))"
proof (intro conjI impI)
  note a = assms(2)[folded allHaveCorrectDateRange_iff]
  {
    assume f: "\<forall>j < length (truthyIds (runAccountsInfo session remote)).
             createResponse remote j (truthyIds (runAccountsInfo session remote) ! j) \<noteq> CreateOk"
    have r: "downloadTransactions nfd JSON_parse session remote clock fs
        = \<lparr>run_outcome = Inl AllRequestsFailed, run_files = fs,
           run_calls = [GetLastExportMetadata, ListRequests]
             @ map (\<lambda>p. CreateRequest p (clock_startDate clock) (clock_today clock)
                            (runAuthHeader JSON_parse session))
                    (truthyIds (runAccountsInfo session remote)),
           run_downloaded = 0\<rparr>"
      using assms(1) a
      by (simp add: downloadTransactions_def Let_def createDownloadRequests_fatal[OF f])
    show "run_outcome (downloadTransactions nfd JSON_parse session remote clock fs)
              = Inl AllRequestsFailed" unfolding r by simp
    show "run_calls (downloadTransactions nfd JSON_parse session remote clock fs)
              = [GetLastExportMetadata, ListRequests]
                @ map (\<lambda>p. CreateRequest p (clock_startDate clock) (clock_today clock)
                            (runAuthHeader JSON_parse session))
                    (truthyIds (runAccountsInfo session remote))" unfolding r by simp
    show "filter isDownload (run_calls (downloadTransactions nfd JSON_parse session remote clock fs)) = []"
      unfolding r by (simp add: filter_empty_conv)
    show "run_files (downloadTransactions nfd JSON_parse session remote clock fs) = fs"
      unfolding r by simp
  }
  {
    assume s: "\<exists>j < length (truthyIds (runAccountsInfo session remote)).
             createResponse remote j (truthyIds (runAccountsInfo session remote) ! j) = CreateOk"
    show "run_outcome (downloadTransactions nfd JSON_parse session remote clock fs)
              \<noteq> Inl AllRequestsFailed"
      using createDownloadRequests_not_fatal(1)[OF s]
      unfolding run_outcome_recreate[OF assms(1) a] by (auto split: sum.splits)
    show "run_outcome (downloadTransactions nfd JSON_parse session remote clock fs) = Inr True"
      if "updatedItems remote \<noteq> None"
      using createDownloadRequests_not_fatal(2)[OF s that]
      unfolding run_outcome_recreate[OF assms(1) a]
      by (metis (no_types, lifting) sum.simps(6))
  }
qed

lemmas run_eval = exampleSession_def exampleClock_def exampleItem_def exampleRemote_def
  runTargets_def runAccountsInfo_def runRetained_def runAuthHeader_def targetPfmContractIds_def
  truthyIds_def truthyId_def toDownloadInfo_def pfmToName_def set_add_def historyByAccount_def
  retain_def hasCurrentRequest_def retainedRequestId_def resolveAuthHeader_def
  getLatestTransactionsFile_def js_def

theorem downloadTransactions_reuse_or_recreate_witness:
  "\<not> hasTransactionsForToday (\<lambda>s. s) Map.empty (clock_now exampleClock) CAISSE_EPARGNE
        (map ai_accountName (ses_accountsFromApi exampleSession))
   \<and> filter isCreate (run_calls (downloadTransactions (\<lambda>s. s) (\<lambda>v. None) exampleSession
        (exampleRemote
           [exampleItem (js ''111'') (js ''2021-09-14'') (js ''2023-11-15'') (js ''R1''),
            exampleItem (js ''222'') (js ''2021-09-14'') (js ''2023-11-15'') (js ''R2''),
            exampleItem (js ''111'') (js ''2021-09-13'') (js ''2023-11-14'') (js ''R0''),
            exampleItem (js ''333'') (js ''2021-09-14'') (js ''2023-11-15'') (js ''R3'')]
           (\<lambda>k p. CreateOk))
        exampleClock Map.empty)) = []
   \<and> filter isPrepare (run_calls (downloadTransactions (\<lambda>s. s) (\<lambda>v. None) exampleSession
        (exampleRemote
           [exampleItem (js ''111'') (js ''2021-09-14'') (js ''2023-11-15'') (js ''R1''),
            exampleItem (js ''222'') (js ''2021-09-14'') (js ''2023-11-15'') (js ''R2''),
            exampleItem (js ''111'') (js ''2021-09-13'') (js ''2023-11-14'') (js ''R0''),
            exampleItem (js ''333'') (js ''2021-09-14'') (js ''2023-11-15'') (js ''R3'')]
           (\<lambda>k p. CreateOk))
        exampleClock Map.empty))
      = [PrepareDownload (js ''R1''), PrepareDownload (js ''R2''), PrepareDownload (js ''R3'')]
   \<and> CreateRequest (js ''111'') (js ''2021-09-14'') (js ''2023-11-15'') (js ''Bearer tok'')
       \<in> set (run_calls (downloadTransactions (\<lambda>s. s) (\<lambda>v. None) exampleSession
        (exampleRemote
           [exampleItem (js ''111'') (js ''2021-09-14'') (js ''2023-11-15'') (js ''R1''),
            exampleItem (js ''222'') (js ''2021-09-14'') (js ''2023-11-14'') (js ''R2''),
            exampleItem (js ''333'') (js ''2021-09-14'') (js ''2023-11-15'') (js ''R3'')]
           (\<lambda>k p. CreateOk))
        exampleClock Map.empty))
   \<and> CreateRequest (js ''222'') (js ''2021-09-14'') (js ''2023-11-15'') (js ''Bearer tok'')
       \<in> set (run_calls (downloadTransactions (\<lambda>s. s) (\<lambda>v. None) exampleSession
        (exampleRemote
           [exampleItem (js ''111'') (js ''2021-09-14'') (js ''2023-11-15'') (js ''R1''),
            exampleItem (js ''222'') (js ''2021-09-14'') (js ''2023-11-14'') (js ''R2''),
            exampleItem (js ''333'') (js ''2021-09-14'') (js ''2023-11-15'') (js ''R3'')]
           (\<lambda>k p. CreateOk))
        exampleClock Map.empty))
   \<and> CreateRequest (js ''333'') (js ''2021-09-14'') (js ''2023-11-15'') (js ''Bearer tok'')
       \<in> set (run_calls (downloadTransactions (\<lambda>s. s) (\<lambda>v. None) exampleSession
        (exampleRemote
           [exampleItem (js ''111'') (js ''2021-09-14'') (js ''2023-11-15'') (js ''R1''),
            exampleItem (js ''222'') (js ''2021-09-14'') (js ''2023-11-14'') (js ''R2''),
            exampleItem (js ''333'') (js ''2021-09-14'') (js ''2023-11-15'') (js ''R3'')]
           (\<lambda>k p. CreateOk))
        exampleClock Map.empty))"
proof -
  let ?fresh = "exampleRemote
           [exampleItem (js ''111'') (js ''2021-09-14'') (js ''2023-11-15'') (js ''R1''),
            exampleItem (js ''222'') (js ''2021-09-14'') (js ''2023-11-15'') (js ''R2''),
            exampleItem (js ''111'') (js ''2021-09-13'') (js ''2023-11-14'') (js ''R0''),
            exampleItem (js ''333'') (js ''2021-09-14'') (js ''2023-11-15'') (js ''R3'')]
           (\<lambda>k p. CreateOk)"
  let ?stale = "exampleRemote
           [exampleItem (js ''111'') (js ''2021-09-14'') (js ''2023-11-15'') (js ''R1''),
            exampleItem (js ''222'') (js ''2021-09-14'') (js ''2023-11-14'') (js ''R2''),
            exampleItem (js ''333'') (js ''2021-09-14'') (js ''2023-11-15'') (js ''R3'')]
           (\<lambda>k p. CreateOk)"
  have g: "\<not> hasTransactionsForToday (\<lambda>s. s) Map.empty (clock_now exampleClock) CAISSE_EPARGNE
        (map ai_accountName (ses_accountsFromApi exampleSession))"
    by (simp add: exampleSession_def getLatestTransactionsFile_def)
  have t: "runTargets exampleSession (exampleRemote listed answers) = [js ''111'', js ''222'', js ''333'']"
    for listed answers
    by (simp add: run_eval)
  have h: "runAuthHeader (\<lambda>v. None) exampleSession = js ''Bearer tok''"
    by (simp add: run_eval)
  have c: "clock_startDate exampleClock = js ''2021-09-14''" "clock_today exampleClock = js ''2023-11-15''"
    by (simp_all add: exampleClock_def)
  have a: "list_all (hasCurrentRequest (runRetained exampleSession ?fresh) (clock_startDate exampleClock)
      (clock_today exampleClock)) (runTargets exampleSession ?fresh)"
    unfolding t by (simp add: run_eval)
  have b: "\<not> list_all (hasCurrentRequest (runRetained exampleSession ?stale) (clock_startDate exampleClock)
      (clock_today exampleClock)) (runTargets exampleSession ?stale)"
    unfolding t by (simp add: run_eval)
  have r: "List.map_filter (retainedRequestId (runRetained exampleSession ?fresh))
      (runTargets exampleSession ?fresh) = [js ''R1'', js ''R2'', js ''R3'']"
    unfolding t by (simp add: run_eval)
  note 1 = downloadTransactions_reuse_or_recreate[OF g, where remote = ?fresh
      and JSON_parse = "\<lambda>v. None"]
  note 2 = downloadTransactions_reuse_or_recreate[OF g, where remote = ?stale
      and JSON_parse = "\<lambda>v. None"]
  from 1 a r 2 b g show ?thesis unfolding t h c by simp
qed

text \<open>The scenario of the specification: three target accounts, three create requests
  that fail.\<close>

theorem downloadTransactions_fatal_when_no_create_succeeds_witness:
  "\<not> hasTransactionsForToday (\<lambda>s. s) Map.empty (clock_now exampleClock) CAISSE_EPARGNE
        (map ai_accountName (ses_accountsFromApi exampleSession))
   \<and> truthyIds (runAccountsInfo exampleSession (exampleRemote [] (\<lambda>k p. CreateNotOk)))
       = [js ''111'', js ''222'', js ''333'']
   \<and> run_outcome (downloadTransactions (\<lambda>s. s) (\<lambda>v. None) exampleSession
        (exampleRemote [] (\<lambda>k p. if k = 1 then CreateThrows else CreateNotOk))
        exampleClock Map.empty) = Inl AllRequestsFailed
   \<and> run_calls (downloadTransactions (\<lambda>s. s) (\<lambda>v. None) exampleSession
        (exampleRemote [] (\<lambda>k p. if k = 1 then CreateThrows else CreateNotOk))
        exampleClock Map.empty)
      = [GetLastExportMetadata, ListRequests,
         CreateRequest (js ''111'') (js ''2021-09-14'') (js ''2023-11-15'') (js ''Bearer tok''),
         CreateRequest (js ''222'') (js ''2021-09-14'') (js ''2023-11-15'') (js ''Bearer tok''),
         CreateRequest (js ''333'') (js ''2021-09-14'') (js ''2023-11-15'') (js ''Bearer tok'')]
   \<and> run_files (downloadTransactions (\<lambda>s. s) (\<lambda>v. None) exampleSession
        (exampleRemote [] (\<lambda>k p. if k = 1 then CreateThrows else CreateNotOk))
        exampleClock Map.empty) = Map.empty
   \<and> run_outcome (downloadTransactions (\<lambda>s. s) (\<lambda>v. None) exampleSession
        (exampleRemote [] (\<lambda>k p. if k = 1 then CreateOk else CreateNotOk))
        exampleClock Map.empty) = Inr True"
proof -
  let ?none = "exampleRemote [] (\<lambda>k p. if k = 1 then CreateThrows else CreateNotOk)"
  let ?one = "exampleRemote [] (\<lambda>k p. if k = 1 then CreateOk else CreateNotOk)"
  have g: "\<not> hasTransactionsForToday (\<lambda>s. s) Map.empty (clock_now exampleClock) CAISSE_EPARGNE
        (map ai_accountName (ses_accountsFromApi exampleSession))"
    by (simp add: exampleSession_def getLatestTransactionsFile_def)
  have t: "runTargets exampleSession (exampleRemote listed answers) = [js ''111'', js ''222'', js ''333'']"
    for listed answers
    by (simp add: run_eval)
  have i: "truthyIds (runAccountsInfo exampleSession (exampleRemote listed answers))
      = [js ''111'', js ''222'', js ''333'']" for listed answers
    by (simp add: run_eval)
  have h: "runAuthHeader (\<lambda>v. None) exampleSession = js ''Bearer tok''"
    by (simp add: run_eval)
  have c: "clock_startDate exampleClock = js ''2021-09-14''" "clock_today exampleClock = js ''2023-11-15''"
    by (simp_all add: exampleClock_def)
  have a: "\<not> list_all (hasCurrentRequest (runRetained exampleSession (exampleRemote [] answers))
      (clock_startDate exampleClock) (clock_today exampleClock))
      (runTargets exampleSession (exampleRemote [] answers))" for answers
    unfolding t by (simp add: run_eval)
  have f: "\<forall>j < length (truthyIds (runAccountsInfo exampleSession ?none)).
      createResponse ?none j (truthyIds (runAccountsInfo exampleSession ?none) ! j) \<noteq> CreateOk"
    by (simp add: exampleRemote_def)
  have s: "\<exists>j < length (truthyIds (runAccountsInfo exampleSession ?one)).
      createResponse ?one j (truthyIds (runAccountsInfo exampleSession ?one) ! j) = CreateOk"
    unfolding i by (rule exI[of _ 1]) (simp add: exampleRemote_def)
  have u: "updatedItems ?one \<noteq> None" by (simp add: exampleRemote_def)
  note 1 = downloadTransactions_fatal_when_no_create_succeeds[OF g
      a[of "\<lambda>k p. if k = 1 then CreateThrows else CreateNotOk"], where JSON_parse = "\<lambda>v. None"]
  note 2 = downloadTransactions_fatal_when_no_create_succeeds[OF g
      a[of "\<lambda>k p. if k = 1 then CreateOk else CreateNotOk"], where JSON_parse = "\<lambda>v. None"]
  from 1 f 2 s u g i
  show ?thesis unfolding h c i by simp
qed

text \<open>A whole run on the example: the creates succeed, one account is downloaded and
  archived under the start of the window.\<close>

lemma example_run:
  "run_outcome (downloadTransactions (\<lambda>s. s) (\<lambda>v. None) exampleSession
        (exampleRemote [] (\<lambda>k p. CreateOk)) exampleClock Map.empty) = Inr True
   \<and> run_downloaded (downloadTransactions (\<lambda>s. s) (\<lambda>v. None) exampleSession
        (exampleRemote [] (\<lambda>k p. CreateOk)) exampleClock Map.empty) = 1
   \<and> run_files (downloadTransactions (\<lambda>s. s) (\<lambda>v. None) exampleSession
        (exampleRemote [] (\<lambda>k p. CreateOk)) exampleClock Map.empty)
        (js ''data/transactions/ce/livret_a'')
      = Some [\<lparr>fname = js ''history-from-20210914.csv'', mtime = 1700090000000,
               content = join [10] [js ''Date;Libelle'', js ''02/11/2023;B'']\<rparr>]"
  by (simp add: downloadTransactions_def createDownloadRequests_def downloadAccountCSV_def
      allHaveCorrectDateRange_def run_eval storage_eval Let_def)

end
